theory Spec2Isabelle
  imports Main "HOL-Library.AList" "HOL-Library.Sublist"
begin

section \<open>Data model of the session manager (src/lib/session-manager.js)\<close>

text \<open>
  JavaScript strings are modelled as \<open>string\<close> (a list of characters; \<open>length\<close> stands for
  the JavaScript \<open>.length\<close>), timestamps returned by \<open>Date.now()\<close> as \<open>int\<close>, passed to every
  operation as the argument \<open>now\<close>. File-system calls are modelled as always succeeding.
  The regular expressions of the source (the ANSI escape pattern, the ready signatures, the
  noise patterns, the device-attribute replies) are not re-implemented: the functions built
  from them are fields of the record \<open>text_rules\<close>, and every theorem holds for all of them.
  \<open>collapseTitleText\<close> replaces every run of white space by one blank and trims the result,
  \<open>isSessionReadySignal\<close> and
  \<open>filterAssistantNoiseChunk\<close> are the methods of these names, \<open>sanitizeTerminalOutput\<close> is the
  chain of replacements of \<open>_appendTerminalOutputReplay\<close>, and \<open>isDeviceAttributeReply\<close> is the
  disjunction of the two tests at the head of \<open>_appendTerminalInputReplay\<close>.
\<close>

datatype session_mode = Chat | Terminal

datatype role = User | Assistant

record message =
  role :: role
  content :: string
  ts :: int

record file_ref =
  path :: string
  name :: string
  addedAt :: int

datatype error = UnknownAgent string | SessionNotFound | CallbackError

text \<open>A viewer callback: \<open>subThrows d\<close> says whether the callback throws when it is called
  with chunk \<open>d\<close>; \<open>inbox\<close> is the sequence of chunks it has handled.\<close>

record callback =
  subThrows :: "string \<Rightarrow> bool"
  inbox :: "string list"

record text_rules =
  collapseTitleText :: "string \<Rightarrow> string"
  isSessionReadySignal :: "string \<Rightarrow> bool"
  filterAssistantNoiseChunk :: "string \<Rightarrow> string"
  sanitizeTerminalOutput :: "string \<Rightarrow> string"
  isDeviceAttributeReply :: "string \<Rightarrow> bool"

record session =
  sessionId :: string
  agentId :: string
  modelId :: string
  username :: string
  createdAt :: int
  lastActivityAt :: int
  outputBuffer :: string
  terminalReplayBuffer :: string
  terminalInputLine :: string
  messages :: "message list"
  lastAssistantIndex :: int
  started :: bool
  mode :: session_mode
  hasTranscript :: bool
  title :: string
  historySaved :: bool
  startCommandSent :: bool
  readyFallbackTimer :: bool
  subscribers :: "(nat \<times> callback) list"
  files :: "file_ref list"
  pendingInputs :: "string list"
  userMessageCount :: nat
  ptyWrites :: "string list"
  ptyKilled :: bool
  onDataCb :: "callback option"
  onExitCalls :: nat

text \<open>\<open>ptyWrites\<close> is the sequence of arguments of \<open>session.pty.write\<close> so far, \<open>ptyKilled\<close>
  records \<open>session.pty.kill()\<close>, \<open>readyFallbackTimer\<close> is true while the readiness fallback
  timer is pending, \<open>onDataCb\<close> is the \<open>onData\<close> argument of \<open>createSession\<close> (None when it is
  null) and \<open>onExitCalls\<close> counts the runs of the \<open>onExit\<close> handler that reach the call of its
  \<open>onExit\<close> argument.\<close>

definition CR :: string where
  "CR = [CHR 0x0D]"

definition LF :: string where
  "LF = [CHR 0x0A]"

text \<open>\<open>s.slice(-n)\<close> on strings and arrays, for \<open>n > 0\<close>.\<close>

definition sliceLast :: "nat \<Rightarrow> 'a list \<Rightarrow> 'a list" where
  "sliceLast n xs = drop (length xs - n) xs"

definition touchSession :: "int \<Rightarrow> session \<Rightarrow> session" where
  "touchSession now s = s\<lparr>lastActivityAt := now\<rparr>"

subsection \<open>Terminal replay buffers\<close>

definition trimReplay :: "string \<Rightarrow> string" where
  "trimReplay buf = (if length buf > 600000 then sliceLast 400000 buf else buf)"

definition appendTerminalOutputReplay :: "text_rules \<Rightarrow> session \<Rightarrow> string \<Rightarrow> session" where
  "appendTerminalOutputReplay R s chunk =
     (if mode s \<noteq> Terminal \<or> chunk = [] then s
      else let text = sanitizeTerminalOutput R chunk in
        if text = [] then s
        else s\<lparr>terminalReplayBuffer := trimReplay (terminalReplayBuffer s @ text)\<rparr>)"

text \<open>The character loop of \<open>_appendTerminalInputReplay\<close>, on the pair
  (terminalReplayBuffer, terminalInputLine).\<close>

fun replayInputChars :: "string \<Rightarrow> string \<times> string \<Rightarrow> string \<times> string" where
  "replayInputChars [] bl = bl"
| "replayInputChars (ch # rest) (buf, line) =
     (if ch = CHR 0x0D \<or> ch = CHR 0x0A then
        (if line \<noteq> [] then replayInputChars rest (buf @ line @ LF, [])
         else replayInputChars rest (buf @ LF, line))
      else if ch = CHR 0x03 then replayInputChars rest (buf @ ''^C'' @ LF, [])
      else if ch = CHR 0x7F \<or> ch = CHR 0x08 then replayInputChars rest (buf, butlast line)
      else if (of_char ch :: nat) \<ge> 32 \<and> ch \<noteq> CHR 0x7F then replayInputChars rest (buf, line @ [ch])
      else replayInputChars rest (buf, line))"

definition appendTerminalInputReplay :: "text_rules \<Rightarrow> session \<Rightarrow> string \<Rightarrow> session" where
  "appendTerminalInputReplay R s chunk =
     (if mode s \<noteq> Terminal \<or> chunk = [] then s
      else if isDeviceAttributeReply R chunk then s
      else let (buf, line) = replayInputChars chunk (terminalReplayBuffer s, terminalInputLine s) in
        s\<lparr>terminalReplayBuffer := trimReplay buf, terminalInputLine := line\<rparr>)"

subsection \<open>Input queue and delivery, on one session object\<close>

definition ptyWrite :: "string \<Rightarrow> session \<Rightarrow> session" where
  "ptyWrite text s = s\<lparr>ptyWrites := ptyWrites s @ [text]\<rparr>"

text \<open>The branch \<open>!session.started\<close> shared by \<open>sendInput\<close> and \<open>sendChatInput\<close>.\<close>

text \<open>\<open>pendingInputs.push(text)\<close> followed by the cap: beyond 200 entries the last 120 stay.\<close>

definition pushCapped :: "string list \<Rightarrow> string \<Rightarrow> string list" where
  "pushCapped q text = (let q' = q @ [text] in if length q' > 200 then sliceLast 120 q' else q')"

definition enqueueInput :: "int \<Rightarrow> string \<Rightarrow> session \<Rightarrow> session" where
  "enqueueInput now text s =
     (let s1 = touchSession now s
      in s1\<lparr>pendingInputs := pushCapped (pendingInputs s1) text\<rparr>)"

fun flushLoop :: "int \<Rightarrow> string list \<Rightarrow> session \<Rightarrow> session" where
  "flushLoop now [] s = s"
| "flushLoop now (chunk # queued) s = flushLoop now queued (ptyWrite chunk (touchSession now s))"

definition flushPendingInputs :: "int \<Rightarrow> session \<Rightarrow> session" where
  "flushPendingInputs now s =
     (if pendingInputs s = [] then s
      else flushLoop now (pendingInputs s) (s\<lparr>pendingInputs := []\<rparr>))"

definition markSessionReady :: "int \<Rightarrow> session \<Rightarrow> session" where
  "markSessionReady now s =
     (if started s then s
      else flushPendingInputs now (s\<lparr>started := True, readyFallbackTimer := False\<rparr>))"


section \<open>Durable data: history items, history files, the runtime snapshot\<close>

text \<open>A JSON object of a history file, of the runtime snapshot or of the in-memory list
  \<open>userSessions\<close>: a key that is absent (or \<open>undefined\<close>) is None. A string is falsy when it
  is empty, a number when it is 0.\<close>

record item =
  i_sessionId :: "string option"
  i_username :: "string option"
  i_agentId :: "string option"
  i_modelId :: "string option"
  i_mode :: "string option"
  i_createdAt :: "int option"
  i_lastActivityAt :: "int option"
  i_endedAt :: "int option"
  i_filesCount :: "int option"
  i_title :: "string option"
  i_hasTranscript :: "bool option"
  i_endedReason :: "string option"

datatype hist_file = HistUnparsable | HistNonArray | HistArray "item list"

datatype runtime_file = RuntimeUnparsable | RuntimeNoArray | RuntimeJson int "item list"

record transcript =
  t_sessionId :: string
  t_agentId :: string
  t_modelId :: string
  t_mode :: string
  t_createdAt :: int
  t_endedAt :: "int option"
  t_title :: "string option"
  t_messages :: "message list"

datatype transcript_file = TranscriptUnparsable | TranscriptJson transcript

datatype jsnum = Num int | NaN | PosInfinity | NegInfinity

record agent =
  agentIdent :: string
  command :: string
  args :: "string list"
  models :: "(string \<times> string) list"

text \<open>\<open>x || d\<close> on an optional string and on an optional number.\<close>

definition orStr :: "string option \<Rightarrow> string \<Rightarrow> string" where
  "orStr x d = (case x of None \<Rightarrow> d | Some v \<Rightarrow> if v = [] then d else v)"

definition orNum :: "int option \<Rightarrow> int \<Rightarrow> int" where
  "orNum x d = (case x of None \<Rightarrow> d | Some v \<Rightarrow> if v = 0 then d else v)"

definition truthyStr :: "string option \<Rightarrow> string option" where
  "truthyStr x = (case x of None \<Rightarrow> None | Some v \<Rightarrow> if v = [] then None else Some v)"

definition truthyNum :: "int option \<Rightarrow> int option" where
  "truthyNum x = (case x of None \<Rightarrow> None | Some v \<Rightarrow> if v = 0 then None else Some v)"

definition modeString :: "session_mode \<Rightarrow> string" where
  "modeString m = (case m of Chat \<Rightarrow> ''chat'' | Terminal \<Rightarrow> ''terminal'')"

definition normalizeHistoryItem :: "int \<Rightarrow> item \<Rightarrow> item option" where
  "normalizeHistoryItem now it =
     (case truthyStr (i_sessionId it) of
        None \<Rightarrow> None
      | Some sid \<Rightarrow>
          let md = (if i_mode it = Some ''terminal'' then ''terminal'' else ''chat'');
              fallbackTitle = orStr (i_agentId it) ''agent'' @ '' / '' @ orStr (i_modelId it) ''default''
          in Some \<lparr> i_sessionId = Some sid,
                    i_username = None,
                    i_agentId = Some (orStr (i_agentId it) ''unknown''),
                    i_modelId = Some (orStr (i_modelId it) ''default''),
                    i_mode = Some md,
                    i_createdAt = Some (orNum (i_createdAt it) now),
                    i_lastActivityAt = None,
                    i_endedAt = truthyNum (i_endedAt it),
                    i_filesCount = Some (orNum (i_filesCount it) 0),
                    i_title = Some (orStr (i_title it) fallbackTitle),
                    i_hasTranscript = Some (md \<noteq> ''terminal''),
                    i_endedReason = truthyStr (i_endedReason it) \<rparr>)"

text \<open>\<open>{...prev, ...item}\<close> where \<open>item\<close> is a result of \<open>_normalizeHistoryItem\<close>: that
  object owns every key it returns (also the ones whose value is \<open>undefined\<close>), so it
  overrides them all; the keys it does not own come from \<open>prev\<close>.\<close>

definition spreadOver :: "item \<Rightarrow> item \<Rightarrow> item" where
  "spreadOver prev it = it\<lparr>i_username := i_username prev, i_lastActivityAt := i_lastActivityAt prev\<rparr>"

definition mergeDedup :: "item \<Rightarrow> item \<Rightarrow> item" where
  "mergeDedup prev it =
     (spreadOver prev it)
       \<lparr> i_createdAt := Some (let pc = orNum (i_createdAt prev) 0 in
                                if pc \<noteq> 0 then pc else orNum (i_createdAt it) 0),
         i_endedAt := truthyNum (Some (orNum (i_endedAt it) (orNum (i_endedAt prev) 0))) \<rparr>"

text \<open>The loop of \<open>_compactHistory\<close> over the insertion-ordered Map \<open>dedup\<close>.\<close>

fun dedupLoop :: "int \<Rightarrow> item list \<Rightarrow> (string \<times> item) list \<Rightarrow> (string \<times> item) list" where
  "dedupLoop now [] dedup = dedup"
| "dedupLoop now (raw # rest) dedup =
     (case normalizeHistoryItem now raw of
        None \<Rightarrow> dedupLoop now rest dedup
      | Some it \<Rightarrow>
          let sid = the (i_sessionId it) in
          (case map_of dedup sid of
             None \<Rightarrow> dedupLoop now rest (AList.update sid it dedup)
           | Some prev \<Rightarrow> dedupLoop now rest (AList.update sid (mergeDedup prev it) dedup)))"

definition createdKey :: "item \<Rightarrow> int" where
  "createdKey it = orNum (i_createdAt it) 0"

text \<open>\<open>Array.prototype.sort\<close> is stable, as \<open>sort_key\<close> is; \<open>slice(-80)\<close> keeps the last 80.\<close>

definition compactHistory :: "int \<Rightarrow> item list \<Rightarrow> item list" where
  "compactHistory now items = sliceLast 80 (sort_key createdKey (map snd (dedupLoop now items [])))"

section \<open>The registry\<close>

record mgr =
  agents :: "string \<rightharpoonup> agent"
  heap :: "nat \<rightharpoonup> session"
  nextAddr :: nat
  sessions :: "(string \<times> nat) list"
  userSessions :: "string \<rightharpoonup> item list"
  activeSessions :: "string \<rightharpoonup> string list"
  historyCache :: "string \<rightharpoonup> item list"
  historyFiles :: "string \<rightharpoonup> hist_file"
  transcriptFiles :: "string \<times> string \<rightharpoonup> transcript_file"
  runtimeStateFile :: "runtime_file option"
  inactiveSessionTimeout :: jsnum
  startTimers :: "(nat \<times> agent \<times> string) list"
  typingTimers :: "(nat \<times> string) list"
  savedLog :: "nat list"

text \<open>
  Session objects live in \<open>heap\<close>, at the address given when \<open>createSession\<close> built them, and
  stay there after the Map \<open>sessions\<close> (session id to object, in insertion order) has dropped
  them: the \<open>onData\<close>/\<open>onExit\<close> handlers and the timers hold the object itself.
  A history file is addressed by its user name and a transcript file by its user name and
  session id, which stand for the paths \<open>historyDir/username.json\<close> and
  \<open>sessionsDir/username/sessionId.json\<close>; how \<open>path.join\<close> normalises such a path is not
  modelled.
  \<open>startTimers\<close> and \<open>typingTimers\<close> are the pending \<open>setTimeout\<close> callbacks with what their
  closures captured. \<open>savedLog\<close> is the trace of the durable history writes of \<open>_saveHistory\<close>:
  the address of the session is appended each time \<open>_saveHistory\<close> passes its guard and
  writes.
\<close>

definition putSession :: "nat \<Rightarrow> session \<Rightarrow> mgr \<Rightarrow> mgr" where
  "putSession a s st = st\<lparr>heap := (heap st)(a \<mapsto> s)\<rparr>"

text \<open>\<open>this.sessions.get(sessionId)\<close>: the address and the object.\<close>

definition getSession :: "mgr \<Rightarrow> string \<Rightarrow> (nat \<times> session) option" where
  "getSession st sid =
     (case map_of (sessions st) sid of
        None \<Rightarrow> None
      | Some a \<Rightarrow> (case heap st a of None \<Rightarrow> None | Some s \<Rightarrow> Some (a, s)))"

definition sessionsHas :: "mgr \<Rightarrow> string \<Rightarrow> bool" where
  "sessionsHas st sid = (map_of (sessions st) sid \<noteq> None)"


subsection \<open>History files and the runtime snapshot\<close>

definition readHistoryForUser :: "int \<Rightarrow> string \<Rightarrow> mgr \<Rightarrow> item list \<times> mgr" where
  "readHistoryForUser now u st =
     (case historyCache st u of
        Some cached \<Rightarrow> (cached, st)
      | None \<Rightarrow>
          (case historyFiles st u of
             None \<Rightarrow> ([], st\<lparr>historyCache := (historyCache st)(u \<mapsto> [])\<rparr>)
           | Some HistUnparsable \<Rightarrow> ([], st\<lparr>historyCache := (historyCache st)(u \<mapsto> [])\<rparr>)
           | Some HistNonArray \<Rightarrow> ([], st\<lparr>historyCache := (historyCache st)(u \<mapsto> [])\<rparr>)
           | Some (HistArray parsed) \<Rightarrow>
               (let compacted = compactHistory now parsed
                in (compacted, st\<lparr>historyCache := (historyCache st)(u \<mapsto> compacted)\<rparr>))))"

definition writeHistoryForUser :: "int \<Rightarrow> string \<Rightarrow> item list \<Rightarrow> mgr \<Rightarrow> mgr" where
  "writeHistoryForUser now u history st =
     (let compacted = compactHistory now history
      in st\<lparr>historyCache := (historyCache st)(u \<mapsto> compacted),
            historyFiles := (historyFiles st)(u \<mapsto> HistArray compacted)\<rparr>)"

text \<open>\<open>list.find(i => i.sessionId === sessionId)\<close>, then \<open>item.endedAt = ts\<close>.\<close>

fun setEndedAtFirst :: "string \<Rightarrow> int \<Rightarrow> item list \<Rightarrow> item list" where
  "setEndedAtFirst sid tm [] = []"
| "setEndedAtFirst sid tm (it # rest) =
     (if i_sessionId it = Some sid then it\<lparr>i_endedAt := Some tm\<rparr> # rest
      else it # setEndedAtFirst sid tm rest)"

definition markUserSessionEnded :: "string \<Rightarrow> string \<Rightarrow> int \<Rightarrow> mgr \<Rightarrow> mgr" where
  "markUserSessionEnded u sid tm st =
     (case userSessions st u of
        None \<Rightarrow> st
      | Some list \<Rightarrow> st\<lparr>userSessions := (userSessions st)(u \<mapsto> setEndedAtFirst sid tm list)\<rparr>)"

definition snapshotOf :: "session \<Rightarrow> item" where
  "snapshotOf s =
     \<lparr> i_sessionId = Some (sessionId s),
       i_username = Some (username s),
       i_agentId = Some (agentId s),
       i_modelId = Some (modelId s),
       i_mode = Some (modeString (mode s)),
       i_createdAt = Some (createdAt s),
       i_lastActivityAt = Some (orNum (Some (lastActivityAt s)) (createdAt s)),
       i_endedAt = None,
       i_filesCount = Some (int (length (files s))),
       i_title = Some (title s),
       i_hasTranscript = Some (mode s \<noteq> Terminal),
       i_endedReason = None \<rparr>"

text \<open>\<open>Array.from(this.sessions.values())\<close>.\<close>

definition sessionValues :: "mgr \<Rightarrow> session list" where
  "sessionValues st = List.map_filter (\<lambda>(sid, a). heap st a) (sessions st)"

definition persistRuntimeState :: "int \<Rightarrow> mgr \<Rightarrow> mgr" where
  "persistRuntimeState now st =
     (let active = map snapshotOf (sessionValues st)
      in if active = [] then st\<lparr>runtimeStateFile := None\<rparr>
         else st\<lparr>runtimeStateFile := Some (RuntimeJson now active)\<rparr>)"

text \<open>The loop body of \<open>_recoverRuntimeState\<close>.\<close>

definition recoverItem :: "int \<Rightarrow> item \<Rightarrow> mgr \<Rightarrow> mgr" where
  "recoverItem now it st =
     (case normalizeHistoryItem now (it\<lparr>i_endedAt := Some now, i_endedReason := Some ''server_restart''\<rparr>) of
        None \<Rightarrow> st
      | Some normalized \<Rightarrow>
          (case truthyStr (i_username it) of
             None \<Rightarrow> st
           | Some u \<Rightarrow>
               (let (history, st1) = readHistoryForUser now u st;
                    next = filter (\<lambda>h. i_sessionId h \<noteq> i_sessionId normalized) history @ [normalized]
                in writeHistoryForUser now u next st1)))"

definition recoverRuntimeState :: "int \<Rightarrow> mgr \<Rightarrow> mgr" where
  "recoverRuntimeState now st =
     (case runtimeStateFile st of
        None \<Rightarrow> st
      | Some RuntimeUnparsable \<Rightarrow> st\<lparr>runtimeStateFile := None\<rparr>
      | Some RuntimeNoArray \<Rightarrow> st\<lparr>runtimeStateFile := None\<rparr>
      | Some (RuntimeJson updatedAt active) \<Rightarrow>
          (fold (recoverItem now) active st)\<lparr>runtimeStateFile := None\<rparr>)"

subsection \<open>Saving history and destroying sessions\<close>

fun findIndex :: "('a \<Rightarrow> bool) \<Rightarrow> 'a list \<Rightarrow> nat option" where
  "findIndex P [] = None"
| "findIndex P (x # xs) = (if P x then Some 0 else map_option Suc (findIndex P xs))"

definition digitChar :: "nat \<Rightarrow> char" where
  "digitChar d = ''0123456789'' ! d"

fun showNat :: "nat \<Rightarrow> string" where
  "showNat n = (if n < 10 then [digitChar n] else showNat (n div 10) @ [digitChar (n mod 10)])"

definition showInt :: "int \<Rightarrow> string" where
  "showInt i = (if i < 0 then ''-'' @ showNat (nat (- i)) else showNat (nat i))"

definition transcriptOf :: "int option \<Rightarrow> string option \<Rightarrow> session \<Rightarrow> transcript" where
  "transcriptOf ended ttl s =
     \<lparr> t_sessionId = sessionId s, t_agentId = agentId s, t_modelId = modelId s,
       t_mode = modeString (mode s), t_createdAt = createdAt s, t_endedAt = ended,
       t_title = ttl, t_messages = messages s \<rparr>"

definition saveHistory :: "int \<Rightarrow> nat \<Rightarrow> mgr \<Rightarrow> mgr" where
  "saveHistory now a st =
     (case heap st a of
        None \<Rightarrow> st
      | Some s \<Rightarrow>
          if historySaved s then st
          else
            let s' = s\<lparr>historySaved := True\<rparr>;
                st1 = putSession a s' st;
                (history, st2) = readHistoryForUser now (username s') st1;
                entry = normalizeHistoryItem now
                  \<lparr> i_sessionId = Some (if sessionId s' \<noteq> [] then sessionId s'
                                         else username s' @ ''-'' @ agentId s' @ ''-'' @ showInt (createdAt s')),
                    i_username = None,
                    i_agentId = Some (agentId s'),
                    i_modelId = Some (modelId s'),
                    i_mode = Some (modeString (mode s')),
                    i_createdAt = Some (createdAt s'),
                    i_lastActivityAt = None,
                    i_endedAt = Some now,
                    i_filesCount = Some (int (length (files s'))),
                    i_title = Some (title s'),
                    i_hasTranscript = Some (mode s' \<noteq> Terminal),
                    i_endedReason = None \<rparr>;
                history' = (case entry of
                              None \<Rightarrow> history
                            | Some e \<Rightarrow>
                                (case findIndex (\<lambda>h. i_sessionId h = i_sessionId e) history of
                                   Some idx \<Rightarrow> history[idx := spreadOver (history ! idx) e]
                                 | None \<Rightarrow> history @ [e]));
                st3 = (writeHistoryForUser now (username s') history' st2)\<lparr>savedLog := savedLog st2 @ [a]\<rparr>
            in if mode s' = Terminal then st3
               else st3\<lparr>transcriptFiles := (transcriptFiles st3)((username s', sessionId s') \<mapsto>
                          TranscriptJson (transcriptOf (Some now) None s'))\<rparr>)"

text \<open>The part shared by \<open>destroySession\<close> and the \<open>onExit\<close> handler: both are given the
  session id and the user name they hold.\<close>

definition unregister :: "int \<Rightarrow> string \<Rightarrow> string \<Rightarrow> mgr \<Rightarrow> mgr" where
  "unregister now sid u st =
     (let st1 = st\<lparr>sessions := AList.delete sid (sessions st)\<rparr>;
          st2 = (case activeSessions st1 u of
                   None \<Rightarrow> st1
                 | Some list \<Rightarrow> st1\<lparr>activeSessions := (activeSessions st1)(u \<mapsto> filter (\<lambda>i. i \<noteq> sid) list)\<rparr>);
          st3 = markUserSessionEnded u sid now st2
      in persistRuntimeState now st3)"

definition destroySession :: "int \<Rightarrow> string \<Rightarrow> mgr \<Rightarrow> mgr" where
  "destroySession now sid st =
     (case getSession st sid of
        None \<Rightarrow> st
      | Some (a, s) \<Rightarrow>
          (let st1 = putSession a (s\<lparr>readyFallbackTimer := False, ptyKilled := True\<rparr>) st;
               st2 = saveHistory now a st1
           in unregister now sid (username s) st2))"

text \<open>The handler registered with \<open>ptyProcess.onExit\<close> for the session object at \<open>a\<close>.\<close>

definition ptyOnExit :: "int \<Rightarrow> nat \<Rightarrow> mgr \<Rightarrow> mgr" where
  "ptyOnExit now a st =
     (case heap st a of
        None \<Rightarrow> st
      | Some s \<Rightarrow>
          (let st1 = putSession a (s\<lparr>readyFallbackTimer := False\<rparr>) st;
               st2 = saveHistory now a st1;
               st3 = unregister now (sessionId s) (username s) st2
           in case heap st3 a of
                None \<Rightarrow> st3
              | Some s3 \<Rightarrow> putSession a (s3\<lparr>onExitCalls := Suc (onExitCalls s3)\<rparr>) st3))"

definition destroyUserSession :: "int \<Rightarrow> string \<Rightarrow> mgr \<Rightarrow> mgr" where
  "destroyUserSession now u st =
     fold (destroySession now) (case activeSessions st u of None \<Rightarrow> [] | Some list \<Rightarrow> list) st"

definition destroyAll :: "int \<Rightarrow> mgr \<Rightarrow> mgr" where
  "destroyAll now st = persistRuntimeState now (fold (destroySession now) (map fst (sessions st)) st)"


subsection \<open>Creating a session, the startup command and readiness\<close>

definition joinWith :: "string \<Rightarrow> string list \<Rightarrow> string" where
  "joinWith sep xs = (case xs of [] \<Rightarrow> [] | x # rest \<Rightarrow> foldl (\<lambda>acc y. acc @ sep @ y) x rest)"

definition buildStartCommand :: "agent \<Rightarrow> string \<Rightarrow> string" where
  "buildStartCommand ag mid =
     (let cmd = command ag;
          cmd1 = (if args ag \<noteq> [] then cmd @ '' '' @ joinWith '' '' (args ag) else cmd)
      in if mid \<noteq> [] \<and> mid \<noteq> ''default'' then
           (case find (\<lambda>m. fst m = mid) (models ag) of
              Some m \<Rightarrow> (if snd m \<noteq> [] then cmd1 @ '' '' @ snd m else cmd1)
            | None \<Rightarrow> cmd1)
         else cmd1)"

definition newSession :: "int \<Rightarrow> string \<Rightarrow> string \<Rightarrow> string \<Rightarrow> string \<Rightarrow> string \<Rightarrow> callback option \<Rightarrow> session" where
  "newSession now sid u aid mid modeArg onData =
     \<lparr> sessionId = sid,
       agentId = aid,
       modelId = (if mid \<noteq> [] then mid else ''default''),
       username = u,
       createdAt = now,
       lastActivityAt = now,
       outputBuffer = [],
       terminalReplayBuffer = [],
       terminalInputLine = [],
       messages = [],
       lastAssistantIndex = - 1,
       started = False,
       mode = (if modeArg = ''terminal'' then Terminal else Chat),
       hasTranscript = (modeArg \<noteq> ''terminal''),
       title = aid @ '' / '' @ (if mid \<noteq> [] then mid else ''default''),
       historySaved = False,
       startCommandSent = False,
       readyFallbackTimer = False,
       subscribers = [],
       files = [],
       pendingInputs = [],
       userMessageCount = 0,
       ptyWrites = [],
       ptyKilled = False,
       onDataCb = onData,
       onExitCalls = 0 \<rparr>"

definition createSession ::
  "int \<Rightarrow> string \<Rightarrow> string \<Rightarrow> string \<Rightarrow> string \<Rightarrow> callback option \<Rightarrow> mgr \<Rightarrow> (error + string) \<times> mgr" where
  "createSession now u aid mid modeArg onData st =
     (case agents st aid of
        None \<Rightarrow> (Inl (UnknownAgent aid), st)
      | Some ag \<Rightarrow>
          (let sid = u @ ''-'' @ aid @ ''-'' @ showInt now;
               a = nextAddr st;
               s = newSession now sid u aid mid modeArg onData;
               st1 = st\<lparr>heap := (heap st)(a \<mapsto> s), nextAddr := Suc a,
                        sessions := AList.update sid a (sessions st)\<rparr>;
               st2 = st1\<lparr>activeSessions := (activeSessions st1)(u \<mapsto>
                            (case activeSessions st1 u of None \<Rightarrow> [] | Some l \<Rightarrow> l) @ [sid])\<rparr>;
               entry = \<lparr> i_sessionId = Some sid, i_username = None, i_agentId = Some aid,
                         i_modelId = Some (modelId s), i_mode = Some (modeString (mode s)),
                         i_createdAt = Some now, i_lastActivityAt = None, i_endedAt = None,
                         i_filesCount = None, i_title = Some (title s),
                         i_hasTranscript = Some (hasTranscript s), i_endedReason = None \<rparr>;
               st3 = st2\<lparr>userSessions := (userSessions st2)(u \<mapsto>
                            (case userSessions st2 u of None \<Rightarrow> [] | Some l \<Rightarrow> l) @ [entry])\<rparr>;
               st4 = persistRuntimeState now st3
           in (Inr sid, st4\<lparr>startTimers := startTimers st4 @ [(a, ag, mid)]\<rparr>)))"

text \<open>The 500 ms timer of \<open>createSession\<close> fires: the first pending one.\<close>

definition startTimerFired :: "mgr \<Rightarrow> mgr" where
  "startTimerFired st =
     (case startTimers st of
        [] \<Rightarrow> st
      | (a, ag, mid) # rest \<Rightarrow>
          (let st1 = st\<lparr>startTimers := rest\<rparr> in
           case heap st1 a of
             None \<Rightarrow> st1
           | Some s \<Rightarrow>
               if \<not> sessionsHas st1 (sessionId s) then st1
               else putSession a
                      ((ptyWrite (buildStartCommand ag mid @ CR) (s\<lparr>startCommandSent := True\<rparr>))
                         \<lparr>readyFallbackTimer := True\<rparr>) st1))"

text \<open>The readiness fallback timer of the session object at \<open>a\<close> fires (it does nothing
  once \<open>clearTimeout\<close> has run).\<close>

definition readyFallbackFired :: "int \<Rightarrow> nat \<Rightarrow> mgr \<Rightarrow> mgr" where
  "readyFallbackFired now a st =
     (case heap st a of
        None \<Rightarrow> st
      | Some s \<Rightarrow>
          if \<not> readyFallbackTimer s then st
          else if \<not> sessionsHas st (sessionId s) then putSession a (s\<lparr>readyFallbackTimer := False\<rparr>) st
          else putSession a (markSessionReady now s) st)"

subsection \<open>Input\<close>

definition sendInput :: "text_rules \<Rightarrow> int \<Rightarrow> string \<Rightarrow> string \<Rightarrow> mgr \<Rightarrow> (error + unit) \<times> mgr" where
  "sendInput R now sid text st =
     (case getSession st sid of
        None \<Rightarrow> (Inl SessionNotFound, st)
      | Some (a, s) \<Rightarrow>
          (let s1 = appendTerminalInputReplay R s text in
           if \<not> started s1 then (Inr (), putSession a (enqueueInput now text s1) st)
           else (Inr (), putSession a (ptyWrite text (touchSession now s1)) st)))"

text \<open>One run of the closure \<open>typeNext\<close> of \<open>_simulateTyping\<close>, with the characters not yet
  written; the next run is a pending timer.\<close>

definition typeNext :: "nat \<Rightarrow> string \<Rightarrow> mgr \<Rightarrow> mgr" where
  "typeNext a chars st =
     (case heap st a of
        None \<Rightarrow> st
      | Some s \<Rightarrow>
          if chars = [] \<or> \<not> sessionsHas st (sessionId s) then st
          else
            (let batchSize = min 10 (length chars);
                 st1 = putSession a (ptyWrite (take batchSize chars) s) st
             in if drop batchSize chars \<noteq> []
                then st1\<lparr>typingTimers := typingTimers st1 @ [(a, drop batchSize chars)]\<rparr>
                else st1))"

definition simulateTyping :: "nat \<Rightarrow> string \<Rightarrow> mgr \<Rightarrow> mgr" where
  "simulateTyping a text st = (if text = [] then st else typeNext a text st)"

definition typingTimerFired :: "mgr \<Rightarrow> mgr" where
  "typingTimerFired st =
     (case typingTimers st of
        [] \<Rightarrow> st
      | (a, chars) # rest \<Rightarrow> typeNext a chars (st\<lparr>typingTimers := rest\<rparr>))"

definition sendChatInput :: "text_rules \<Rightarrow> int \<Rightarrow> string \<Rightarrow> string \<Rightarrow> mgr \<Rightarrow> (error + unit) \<times> mgr" where
  "sendChatInput R now sid text st =
     (case getSession st sid of
        None \<Rightarrow> (Inl SessionNotFound, st)
      | Some (a, s) \<Rightarrow>
          (let fullText = text @ CR;
               s1 = appendTerminalInputReplay R s fullText
           in if \<not> started s1 then (Inr (), putSession a (enqueueInput now fullText s1) st)
              else
                (let st1 = putSession a (touchSession now s1) st
                 in if agentId s1 = ''gemini'' then (Inr (), simulateTyping a fullText st1)
                    else (Inr (), putSession a (ptyWrite fullText (touchSession now s1)) st))))"

subsection \<open>Subscribers, files, user messages\<close>

definition addSubscriber :: "string \<Rightarrow> nat \<Rightarrow> callback \<Rightarrow> mgr \<Rightarrow> mgr" where
  "addSubscriber sid fnId fn st =
     (case getSession st sid of
        None \<Rightarrow> st
      | Some (a, s) \<Rightarrow>
          if fnId \<in> fst ` set (subscribers s) then st
          else putSession a (s\<lparr>subscribers := subscribers s @ [(fnId, fn)]\<rparr>) st)"

definition removeSubscriber :: "string \<Rightarrow> nat \<Rightarrow> mgr \<Rightarrow> mgr" where
  "removeSubscriber sid fnId st =
     (case getSession st sid of
        None \<Rightarrow> st
      | Some (a, s) \<Rightarrow> putSession a (s\<lparr>subscribers := filter (\<lambda>p. fst p \<noteq> fnId) (subscribers s)\<rparr>) st)"

definition addFile :: "int \<Rightarrow> string \<Rightarrow> string \<Rightarrow> string \<Rightarrow> mgr \<Rightarrow> mgr" where
  "addFile now sid filePath fileName st =
     (case getSession st sid of
        None \<Rightarrow> st
      | Some (a, s) \<Rightarrow>
          persistRuntimeState now
            (putSession a ((touchSession now s)
               \<lparr>files := files s @ [\<lparr>path = filePath, name = fileName, addedAt = now\<rparr>]\<rparr>) st))"

text \<open>The bytes of the default title and of the separator of \<open>recordUserMessage\<close> (UTF-8).\<close>

definition defaultShortTitle :: string where
  "defaultShortTitle = [CHR 0xE6, CHR 0x96, CHR 0xB0, CHR 0xE4, CHR 0xBC, CHR 0x9A, CHR 0xE8, CHR 0xAF, CHR 0x9D]"

definition titleSeparator :: string where
  "titleSeparator = [CHR 0x20, CHR 0xC2, CHR 0xB7, CHR 0x20]"

definition recordUserMessage :: "text_rules \<Rightarrow> int \<Rightarrow> string \<Rightarrow> string \<Rightarrow> mgr \<Rightarrow> (error + unit) \<times> mgr" where
  "recordUserMessage R now sid text st =
     (case getSession st sid of
        None \<Rightarrow> (Inl SessionNotFound, st)
      | Some (a, s) \<Rightarrow>
          (let isFirstUserMsg = (\<not> (\<exists>m \<in> set (messages s). role m = User));
               s1 = touchSession now s;
               s2 = s1\<lparr>messages := messages s1 @ [\<lparr>role = User, content = text, ts = now\<rparr>],
                       userMessageCount := userMessageCount s1 + 1\<rparr>;
               short = take 40 (collapseTitleText R text);
               s3 = (if isFirstUserMsg
                     then s2\<lparr>title := (if short \<noteq> [] then short else defaultShortTitle) @ titleSeparator @ modelId s2\<rparr>
                     else s2);
               s4 = s3\<lparr>lastAssistantIndex := - 1\<rparr>;
               s5 = (if length (messages s4) > 2000 then s4\<lparr>messages := sliceLast 1500 (messages s4)\<rparr> else s4)
           in (Inr (), persistRuntimeState now (putSession a s5 st))))"

subsection \<open>Transcript building and output fan-out\<close>

text \<open>The budget loop of \<open>_appendAssistantOutput\<close>, walking the messages from the last one:
  the result is the number of messages after the index where the total exceeds the budget.\<close>

fun budgetScan :: "nat \<Rightarrow> nat \<Rightarrow> message list \<Rightarrow> nat option" where
  "budgetScan tot k [] = None"
| "budgetScan tot k (m # older) =
     (let tot' = tot + length (content m)
      in if tot' > 2000000 then Some k else budgetScan tot' (Suc k) older)"

definition appendAssistantOutput :: "text_rules \<Rightarrow> int \<Rightarrow> session \<Rightarrow> string \<Rightarrow> session" where
  "appendAssistantOutput R now s chunk =
     (if mode s \<noteq> Chat \<or> chunk = [] then s
      else if userMessageCount s = 0 \<and> \<not> (\<exists>m \<in> set (messages s). role m = User) then s
      else
        let s1 = (if userMessageCount s = 0 then s\<lparr>userMessageCount := 1\<rparr> else s);
            filteredChunk = filterAssistantNoiseChunk R chunk
        in if filteredChunk = [] then s1
           else
             let s2 = touchSession now s1;
                 idx = lastAssistantIndex s2;
                 ms = messages s2;
                 s3 = (if idx < 0 \<or> nat idx \<ge> length ms \<or> role (ms ! nat idx) \<noteq> Assistant
                       then s2\<lparr>messages := ms @ [\<lparr>role = Assistant, content = filteredChunk, ts = now\<rparr>],
                               lastAssistantIndex := int (length ms)\<rparr>
                       else s2\<lparr>messages := ms[nat idx := (ms ! nat idx)\<lparr>content := content (ms ! nat idx) @ filteredChunk\<rparr>]\<rparr>)
             in (case budgetScan 0 0 (rev (messages s3)) of
                   None \<Rightarrow> s3
                 | Some k \<Rightarrow> s3\<lparr>messages := sliceLast k (messages s3), lastAssistantIndex := int k - 1\<rparr>))"

definition callCallback :: "callback \<Rightarrow> string \<Rightarrow> error + callback" where
  "callCallback fn d = (if subThrows fn d then Inl CallbackError else Inr (fn\<lparr>inbox := inbox fn @ [d]\<rparr>))"

text \<open>The loop over \<open>session.subscribers\<close> with its \<open>try\<close>/\<open>catch\<close>.\<close>

fun fanOut :: "string \<Rightarrow> (nat \<times> callback) list \<Rightarrow> (nat \<times> callback) list" where
  "fanOut d [] = []"
| "fanOut d ((fnId, fn) # rest) =
     (case callCallback fn d of
        Inl e \<Rightarrow> (fnId, fn) # fanOut d rest
      | Inr fn' \<Rightarrow> (fnId, fn') # fanOut d rest)"

definition appendOutputBuffer :: "string \<Rightarrow> session \<Rightarrow> session" where
  "appendOutputBuffer d s =
     (let buf = outputBuffer s @ d
      in s\<lparr>outputBuffer := (if length buf > 200000 then sliceLast 160000 buf else buf)\<rparr>)"

text \<open>The handler registered with \<open>ptyProcess.onData\<close> for the session object at \<open>a\<close>. An
  exception of the session's own \<open>onData\<close> callback is not caught by the handler.\<close>

definition ptyOnData :: "text_rules \<Rightarrow> int \<Rightarrow> nat \<Rightarrow> string \<Rightarrow> mgr \<Rightarrow> (error + unit) \<times> mgr" where
  "ptyOnData R now a d st =
     (case heap st a of
        None \<Rightarrow> (Inr (), st)
      | Some s \<Rightarrow>
          (let s1 = touchSession now s;
               s2 = (if \<not> started s1 \<and> startCommandSent s1 \<and> isSessionReadySignal R d
                     then markSessionReady now s1 else s1);
               s3 = appendOutputBuffer d s2;
               s4 = appendTerminalOutputReplay R s3 d;
               s5 = appendAssistantOutput R now s4 d;
               s6 = s5\<lparr>subscribers := fanOut d (subscribers s5)\<rparr>
           in case onDataCb s6 of
                None \<Rightarrow> (Inr (), putSession a s6 st)
              | Some cb \<Rightarrow>
                  (case callCallback cb d of
                     Inl e \<Rightarrow> (Inl e, putSession a s6 st)
                   | Inr cb' \<Rightarrow> (Inr (), putSession a (s6\<lparr>onDataCb := Some cb'\<rparr>) st))))"

subsection \<open>Reading a transcript\<close>


subsection \<open>The idle reaper\<close>

definition isStale :: "int \<Rightarrow> int \<Rightarrow> session \<Rightarrow> bool" where
  "isStale now timeout s =
     (let last = orNum (Some (lastActivityAt s)) (orNum (Some (createdAt s)) now)
      in now - last > timeout)"

definition staleIds :: "int \<Rightarrow> int \<Rightarrow> mgr \<Rightarrow> string list" where
  "staleIds now timeout st =
     List.map_filter (\<lambda>(sid, a). case heap st a of
                                   None \<Rightarrow> None
                                 | Some s \<Rightarrow> if isStale now timeout s then Some sid else None)
       (sessions st)"

definition reapOne :: "int \<Rightarrow> string \<Rightarrow> mgr \<Rightarrow> mgr" where
  "reapOne now sid st =
     (let session = getSession st sid;
          st1 = destroySession now sid st
      in case session of
           None \<Rightarrow> st1
         | Some (a, s) \<Rightarrow> markUserSessionEnded (username s) sid now st1)"

definition cleanupInactiveSessions :: "int \<Rightarrow> mgr \<Rightarrow> mgr" where
  "cleanupInactiveSessions now st =
     (case inactiveSessionTimeout st of
        Num timeout \<Rightarrow>
          if timeout \<le> 0 then st
          else fold (reapOne now) (staleIds now timeout st) st
      | _ \<Rightarrow> st)"


subsection \<open>The constructor\<close>

text \<open>\<open>Number(config.inactiveSessionTimeout || 30 * 60 * 1000)\<close>: the argument is None when
  the configured value is missing or falsy, otherwise what \<open>Number\<close> makes of it (NaN for a
  string that is not a number).\<close>

definition timeoutOfConfig :: "jsnum option \<Rightarrow> jsnum" where
  "timeoutOfConfig cfg = (case cfg of None \<Rightarrow> Num 1800000 | Some v \<Rightarrow> if v = Num 0 then Num 1800000 else v)"

text \<open>The fields as the constructor sets them, on the files it finds.\<close>

definition initialFields ::
  "agent list \<Rightarrow> jsnum option \<Rightarrow> (string \<rightharpoonup> hist_file) \<Rightarrow> (string \<times> string \<rightharpoonup> transcript_file)
     \<Rightarrow> runtime_file option \<Rightarrow> mgr" where
  "initialFields cfgAgents cfgTimeout histFiles trFiles rtFile =
     \<lparr> agents = fold (\<lambda>ag m. m(agentIdent ag \<mapsto> ag)) cfgAgents Map.empty,
       heap = Map.empty,
       nextAddr = 0,
       sessions = [],
       userSessions = Map.empty,
       activeSessions = Map.empty,
       historyCache = Map.empty,
       historyFiles = histFiles,
       transcriptFiles = trFiles,
       runtimeStateFile = rtFile,
       inactiveSessionTimeout = timeoutOfConfig cfgTimeout,
       startTimers = [],
       typingTimers = [],
       savedLog = [] \<rparr>"

definition newManager ::
  "int \<Rightarrow> agent list \<Rightarrow> jsnum option \<Rightarrow> (string \<rightharpoonup> hist_file) \<Rightarrow> (string \<times> string \<rightharpoonup> transcript_file)
     \<Rightarrow> runtime_file option \<Rightarrow> mgr" where
  "newManager now cfgAgents cfgTimeout histFiles trFiles rtFile =
     recoverRuntimeState now (initialFields cfgAgents cfgTimeout histFiles trFiles rtFile)"

section \<open>Sequences of calls and events\<close>

datatype input = RawInput string | ChatInput string

text \<open>What is queued or written for an input: \<open>sendChatInput\<close> appends a carriage return.\<close>

definition chunkOf :: "input \<Rightarrow> string" where
  "chunkOf inp = (case inp of RawInput text \<Rightarrow> text | ChatInput text \<Rightarrow> text @ CR)"

definition submit :: "text_rules \<Rightarrow> int \<Rightarrow> string \<Rightarrow> input \<Rightarrow> mgr \<Rightarrow> (error + unit) \<times> mgr" where
  "submit R now sid inp st =
     (case inp of RawInput text \<Rightarrow> sendInput R now sid text st
                | ChatInput text \<Rightarrow> sendChatInput R now sid text st)"

text \<open>A caller submits inputs one after the other, each at its own time.\<close>

fun submitAll :: "text_rules \<Rightarrow> string \<Rightarrow> (int \<times> input) list \<Rightarrow> mgr \<Rightarrow> mgr" where
  "submitAll R sid [] st = st"
| "submitAll R sid ((now, inp) # rest) st = submitAll R sid rest (snd (submit R now sid inp st))"

text \<open>The process of the session object at \<open>a\<close> emits chunks one after the other; the result
  lists what each run of the \<open>onData\<close> handler returned or threw.\<close>

fun feedOutput :: "text_rules \<Rightarrow> nat \<Rightarrow> (int \<times> string) list \<Rightarrow> mgr \<Rightarrow> (error + unit) list \<times> mgr" where
  "feedOutput R a [] st = ([], st)"
| "feedOutput R a ((now, d) # rest) st =
     (let (r, st1) = ptyOnData R now a d st;
          (rs, st2) = feedOutput R a rest st1
      in (r # rs, st2))"

datatype event =
    CreateSession int string string string string "callback option"
  | StartTimerFired
  | ReadyFallbackFired int nat
  | TypingTimerFired
  | SendInput int string string
  | SendChatInput int string string
  | RecordUserMessage int string string
  | AddFile int string string string
  | AddSubscriber string nat callback
  | RemoveSubscriber string nat
  | PtyData int nat string
  | PtyExit int nat
  | DestroySession int string
  | DestroyUserSession int string
  | DestroyAll int
  | CleanupInactiveSessions int

text \<open>One event of the event loop; an exception thrown by a call ends that call only.\<close>

fun step :: "text_rules \<Rightarrow> event \<Rightarrow> mgr \<Rightarrow> mgr" where
  "step R (CreateSession now u aid mid modeArg onData) st = snd (createSession now u aid mid modeArg onData st)"
| "step R StartTimerFired st = startTimerFired st"
| "step R (ReadyFallbackFired now a) st = readyFallbackFired now a st"
| "step R TypingTimerFired st = typingTimerFired st"
| "step R (SendInput now sid text) st = snd (sendInput R now sid text st)"
| "step R (SendChatInput now sid text) st = snd (sendChatInput R now sid text st)"
| "step R (RecordUserMessage now sid text) st = snd (recordUserMessage R now sid text st)"
| "step R (AddFile now sid filePath fileName) st = addFile now sid filePath fileName st"
| "step R (AddSubscriber sid fnId fn) st = addSubscriber sid fnId fn st"
| "step R (RemoveSubscriber sid fnId) st = removeSubscriber sid fnId st"
| "step R (PtyData now a d) st = snd (ptyOnData R now a d st)"
| "step R (PtyExit now a) st = ptyOnExit now a st"
| "step R (DestroySession now sid) st = destroySession now sid st"
| "step R (DestroyUserSession now u) st = destroyUserSession now u st"
| "step R (DestroyAll now) st = destroyAll now st"
| "step R (CleanupInactiveSessions now) st = cleanupInactiveSessions now st"

definition run :: "text_rules \<Rightarrow> event list \<Rightarrow> mgr \<Rightarrow> mgr" where
  "run R evs st = fold (step R) evs st"

text \<open>Well-formedness of the trace of history writes: no address twice, every address in it
  is a session object whose \<open>_historySaved\<close> is set, and no object lives at an address that
  has not been given out yet.\<close>

definition savedLogOK :: "mgr \<Rightarrow> bool" where
  "savedLogOK st \<longleftrightarrow>
     distinct (savedLog st) \<and>
     (\<forall>a \<in> set (savedLog st). case heap st a of None \<Rightarrow> False | Some s \<Rightarrow> historySaved s) \<and>
     (\<forall>a. nextAddr st \<le> a \<longrightarrow> heap st a = None)"

text \<open>The chat session has no recorded user message yet: the gate of \<open>_appendAssistantOutput\<close>.\<close>

definition noUserMessageYet :: "session \<Rightarrow> bool" where
  "noUserMessageYet s \<longleftrightarrow> userMessageCount s = 0 \<and> (\<forall>m \<in> set (messages s). role m \<noteq> User)"

section \<open>A small configuration for concrete runs\<close>

definition demoRules :: text_rules where
  "demoRules = \<lparr> collapseTitleText = (\<lambda>t. t),
                 isSessionReadySignal = (\<lambda>d. d = ''> ''),
                 filterAssistantNoiseChunk = (\<lambda>c. c),
                 sanitizeTerminalOutput = (\<lambda>c. c),
                 isDeviceAttributeReply = (\<lambda>c. False) \<rparr>"

definition demoAgents :: "agent list" where
  "demoAgents = [ \<lparr>agentIdent = ''codex'', command = ''codex'', args = [], models = []\<rparr>,
                  \<lparr>agentIdent = ''gemini'', command = ''gemini'', args = [], models = []\<rparr> ]"

definition demoManager :: mgr where
  "demoManager = newManager 1 demoAgents None Map.empty Map.empty None"

text \<open>A registry with one chat session of user \<open>al\<close>, created at time 2 and not started.\<close>

definition codexSession :: mgr where
  "codexSession = snd (createSession 2 ''al'' ''codex'' [] ''chat'' None demoManager)"

text \<open>Two hundred and one raw inputs, all submitted at time 3.\<close>

definition overflowInputs :: "(int \<times> input) list" where
  "overflowInputs = (3, RawInput ''first'') # replicate 200 (3, RawInput ''x'')"

text \<open>A viewer callback that throws on every chunk, and one that never throws; both attached
  to the session of \<open>codexSession\<close>.\<close>

definition failingViewer :: callback where
  "failingViewer = \<lparr>subThrows = (\<lambda>d. True), inbox = []\<rparr>"

definition quietViewer :: callback where
  "quietViewer = \<lparr>subThrows = (\<lambda>d. False), inbox = []\<rparr>"

definition twoViewers :: mgr where
  "twoViewers = addSubscriber ''al-codex-2'' 2 quietViewer (addSubscriber ''al-codex-2'' 1 failingViewer codexSession)"

text \<open>A chat message for a gemini session, sent before the session is ready and after.\<close>

definition geminiQueued :: mgr where
  "geminiQueued = run demoRules
     [CreateSession 2 ''al'' ''gemini'' [] ''chat'' None, StartTimerFired,
      SendChatInput 3 ''al-gemini-2'' ''hello gemini, are you there?'', ReadyFallbackFired 4 0] demoManager"

definition geminiLive :: mgr where
  "geminiLive = run demoRules
     [CreateSession 2 ''al'' ''gemini'' [] ''chat'' None, StartTimerFired, ReadyFallbackFired 3 0,
      SendChatInput 4 ''al-gemini-2'' ''hello gemini, are you there?''] demoManager"



text \<open>A session is created, destroyed twice, and then its process exits.\<close>

definition destroyedTwice :: mgr where
  "destroyedTwice = run demoRules
     [CreateSession 2 ''al'' ''codex'' [] ''chat'' None,
      DestroySession 5 ''al-codex-2'', DestroySession 6 ''al-codex-2'', PtyExit 7 0] demoManager"







section \<open>Relations between registry states used for the history guard\<close>

text \<open>Nothing about the guard changes: the same addresses, the same flags, the same trace.\<close>

definition sameSavedFlags :: "mgr \<Rightarrow> mgr \<Rightarrow> bool" where
  "sameSavedFlags st st' \<longleftrightarrow>
     nextAddr st' = nextAddr st \<and> savedLog st' = savedLog st \<and>
     (\<forall>a. map_option historySaved (heap st' a) = map_option historySaved (heap st a))"

text \<open>From a well-formed state the step leads to a well-formed state, keeps every session
  object and never clears a flag.\<close>

definition savedFlagsGrow :: "mgr \<Rightarrow> mgr \<Rightarrow> bool" where
  "savedFlagsGrow st st' \<longleftrightarrow>
     (savedLogOK st \<longrightarrow>
        savedLogOK st' \<and>
        (\<forall>a s. heap st a = Some s \<longrightarrow> (\<exists>s'. heap st' a = Some s' \<and> (historySaved s \<longrightarrow> historySaved s'))))"

section \<open>Vocabulary for the durable history\<close>







section \<open>Basic facts about the registry operations\<close>

lemma sessions_markUserSessionEnded [simp]: "sessions (markUserSessionEnded u sid tm st) = sessions st"
  by (simp add: markUserSessionEnded_def split: option.splits)

lemma sessions_persistRuntimeState [simp]: "sessions (persistRuntimeState now st) = sessions st"
  by (simp add: persistRuntimeState_def Let_def)

lemma sessions_unregister [simp]: "sessions (unregister now sid u st) = AList.delete sid (sessions st)"
  by (simp add: unregister_def Let_def split: option.splits)

lemma getSession_unregister [simp]: "getSession (unregister now sid u st) sid = None"
  by (simp add: getSession_def AList.delete_conv)

section \<open>Unknown agents\<close>

text \<open>
  Claim C7. \<open>createSession\<close> with an agent id that is not in the configured agents table
  fails with the error for an unknown agent, and the registry is returned exactly as it
  was: no session object is allocated (the heap and the next address are unchanged, so no
  process was spawned), and the sessions map, the per-user active and history lists and the
  runtime snapshot are untouched.
\<close>

theorem createSession_unknown_agent:
  "agents st aid = None \<Longrightarrow>
   createSession now u aid mid modeArg onData st = (Inl (UnknownAgent aid), st)"
  by (simp add: createSession_def)

theorem createSession_unknown_agent_witness:
  "agents (newManager 1 [] None Map.empty Map.empty None) ''nope'' = None \<and>
   createSession 5 ''al'' ''nope'' [] ''chat'' None (newManager 1 [] None Map.empty Map.empty None)
     = (Inl (UnknownAgent ''nope''), newManager 1 [] None Map.empty Map.empty None)"
  using createSession_unknown_agent
    [of "newManager 1 [] None Map.empty Map.empty None" "''nope''" 5 "''al''" "[]" "''chat''" None]
  by (simp add: newManager_def initialFields_def recoverRuntimeState_def)

section \<open>Destroying a session twice\<close>

text \<open>
  Claim C3. \<open>destroySession\<close> is idempotent: calling it a second time on the same session id
  (at any later time) leaves the whole registry, with its sessions map, its per-user lists
  and the durable history, as the first call left it.
\<close>

theorem destroySession_idempotent:
  "destroySession now2 sid (destroySession now1 sid st) = destroySession now1 sid st"
proof (cases "getSession st sid")
  case None
  then show ?thesis by (simp add: destroySession_def)
next
  case (Some p)
  obtain a s where p: "p = (a, s)" by (cases p)
  have "getSession (destroySession now1 sid st) sid = None"
    using Some p by (simp add: destroySession_def Let_def)
  then show ?thesis by (simp add: destroySession_def[of now2])
qed

section \<open>Evaluating concrete runs\<close>

lemmas run_defs =
  run_def createSession_def newSession_def startTimerFired_def readyFallbackFired_def
  sendChatInput_def sendInput_def getSession_def putSession_def persistRuntimeState_def
  sessionValues_def snapshotOf_def demoManager_def newManager_def initialFields_def demoAgents_def
  recoverRuntimeState_def showInt_def digitChar_def sessionsHas_def markSessionReady_def
  flushPendingInputs_def enqueueInput_def pushCapped_def touchSession_def
  appendTerminalInputReplay_def ptyWrite_def buildStartCommand_def simulateTyping_def
  typeNext_def Let_def List.map_filter_def modeString_def CR_def demoRules_def
  timeoutOfConfig_def codexSession_def addSubscriber_def

lemma getSession_codexSession:
  "getSession codexSession ''al-codex-2'' = Some (0, newSession 2 ''al-codex-2'' ''al'' ''codex'' [] ''chat'' None)"
  by (simp add: run_defs)

lemma heap_codexSession:
  "heap codexSession 0 = Some (newSession 2 ''al-codex-2'' ''al'' ''codex'' [] ''chat'' None)"
  by (simp add: run_defs)

section \<open>The input queue\<close>

lemma appendTerminalInputReplay_keeps [simp]:
  "ptyWrites (appendTerminalInputReplay R s c) = ptyWrites s"
  "started (appendTerminalInputReplay R s c) = started s"
  "pendingInputs (appendTerminalInputReplay R s c) = pendingInputs s"
  "agentId (appendTerminalInputReplay R s c) = agentId s"
  by (simp_all add: appendTerminalInputReplay_def Let_def split: prod.splits)

lemma enqueueInput_fields [simp]:
  "ptyWrites (enqueueInput now t s) = ptyWrites s"
  "started (enqueueInput now t s) = started s"
  "pendingInputs (enqueueInput now t s) = pushCapped (pendingInputs s) t"
  by (simp_all add: enqueueInput_def touchSession_def Let_def)

lemma flushLoop_ptyWrites: "ptyWrites (flushLoop now q s) = ptyWrites s @ q"
  by (induction q arbitrary: s) (simp_all add: ptyWrite_def touchSession_def)

lemma markSessionReady_writes:
  "\<not> started s \<Longrightarrow> ptyWrites (markSessionReady now s) = ptyWrites s @ pendingInputs s"
  by (simp add: markSessionReady_def flushPendingInputs_def flushLoop_ptyWrites)

lemma getSession_putSession:
  "map_of (sessions st) sid = Some a \<Longrightarrow> getSession (putSession a s' st) sid = Some (a, s')"
  by (simp add: getSession_def putSession_def)

lemma getSession_SomeD:
  "getSession st sid = Some (a, s) \<Longrightarrow> map_of (sessions st) sid = Some a \<and> heap st a = Some s"
  by (auto simp: getSession_def split: option.splits)

lemma submit_queued:
  assumes "getSession st sid = Some (a, s)" and "\<not> started s"
  shows "\<exists>s'. getSession (snd (submit R now sid inp st)) sid = Some (a, s') \<and> \<not> started s' \<and>
              ptyWrites s' = ptyWrites s \<and>
              pendingInputs s' = pushCapped (pendingInputs s) (chunkOf inp)"
  using assms getSession_SomeD[OF assms(1)]
  by (cases inp)
     (simp_all add: submit_def sendInput_def sendChatInput_def chunkOf_def Let_def getSession_putSession)

lemma submitAll_queued:
  assumes "getSession st sid = Some (a, s)" and "\<not> started s"
  shows "\<exists>s'. getSession (submitAll R sid inps st) sid = Some (a, s') \<and> \<not> started s' \<and>
              ptyWrites s' = ptyWrites s \<and>
              pendingInputs s' = foldl pushCapped (pendingInputs s) (map (chunkOf \<circ> snd) inps)"
  using assms
proof (induction inps arbitrary: st s)
  case Nil
  then show ?case by simp
next
  case (Cons p inps)
  obtain now inp where p: "p = (now, inp)" by (cases p)
  from submit_queued[OF Cons.prems, of R now inp]
  obtain s1 where s1: "getSession (snd (submit R now sid inp st)) sid = Some (a, s1)" "\<not> started s1"
      "ptyWrites s1 = ptyWrites s" "pendingInputs s1 = pushCapped (pendingInputs s) (chunkOf inp)"
    by blast
  from Cons.IH[OF s1(1,2)] s1(3,4) show ?case by (simp add: p)
qed

lemma pushCapped_suffix: "suffix (pushCapped q c) (q @ [c])"
  by (simp add: pushCapped_def Let_def sliceLast_def suffix_drop)

lemma foldl_pushCapped_suffix: "suffix (foldl pushCapped q cs) (q @ cs)"
proof (induction cs arbitrary: q)
  case Nil
  then show ?case by simp
next
  case (Cons c cs)
  have "suffix (foldl pushCapped (pushCapped q c) cs) (pushCapped q c @ cs)" by (rule Cons.IH)
  moreover have "suffix (pushCapped q c @ cs) ((q @ [c]) @ cs)"
    using pushCapped_suffix[of q c] by (simp only: same_suffix_suffix)
  ultimately show ?case using suffix_order.trans by fastforce
qed

lemma foldl_pushCapped_small: "length q + length cs \<le> 200 \<Longrightarrow> foldl pushCapped q cs = q @ cs"
  by (induction cs arbitrary: q) (simp_all add: pushCapped_def Let_def)

lemma last_pushCapped: "last (pushCapped q c) = c"
  by (simp add: pushCapped_def Let_def sliceLast_def)

lemma foldl_pushCapped_last: "cs \<noteq> [] \<Longrightarrow> last (foldl pushCapped q cs) = last cs"
  by (induction cs rule: rev_induct) (simp_all add: last_pushCapped)

lemma foldl_pushCapped_overflow:
  "foldl pushCapped [] (c # replicate 200 x) = replicate 120 x"
proof -
  have split: "c # replicate 200 x = (c # replicate 199 x) @ [x]"
    using replicate_append_same[of 199 x] by (simp add: numeral_eq_Suc)
  have "foldl pushCapped [] (c # replicate 199 x) = c # replicate 199 x"
    using foldl_pushCapped_small[of "[]" "c # replicate 199 x"] by simp
  then have "foldl pushCapped [] (c # replicate 200 x) = pushCapped (c # replicate 199 x) x"
    by (simp only: split foldl_append foldl.simps)
  also have "\<dots> = sliceLast 120 ((c # replicate 199 x) @ [x])"
    by (simp add: pushCapped_def Let_def)
  also have "\<dots> = sliceLast 120 (c # replicate 200 x)" by (simp only: split)
  also have "\<dots> = replicate 120 x" by (simp add: sliceLast_def)
  finally show ?thesis .
qed

text \<open>
  Claim C1, as amended. While a session is not started, \<open>sendInput\<close> and \<open>sendChatInput\<close> only
  queue: after any sequence of inputs the session is still there, still not started, and
  nothing has been written to its process. The transition to ready then writes exactly the
  queue, in order, after what had been written before. The queue is a suffix of what was
  pending followed by the submitted chunks in submission order (chat inputs with their
  carriage return); it is all of them when there are at most 200, and the most recent
  input is always in it.
\<close>

theorem queued_inputs_flushed_in_order:
  assumes "getSession st sid = Some (a, s)" and "\<not> started s"
  shows "\<exists>s'. getSession (submitAll R sid inps st) sid = Some (a, s') \<and> \<not> started s' \<and>
              ptyWrites s' = ptyWrites s \<and>
              ptyWrites (markSessionReady now s') = ptyWrites s @ pendingInputs s' \<and>
              suffix (pendingInputs s') (pendingInputs s @ map (chunkOf \<circ> snd) inps) \<and>
              (length (pendingInputs s) + length inps \<le> 200 \<longrightarrow>
                 pendingInputs s' = pendingInputs s @ map (chunkOf \<circ> snd) inps) \<and>
              (inps \<noteq> [] \<longrightarrow> last (pendingInputs s') = chunkOf (snd (last inps)))"
proof -
  from submitAll_queued[OF assms, of R inps]
  obtain s' where s': "getSession (submitAll R sid inps st) sid = Some (a, s')" "\<not> started s'"
      "ptyWrites s' = ptyWrites s"
      "pendingInputs s' = foldl pushCapped (pendingInputs s) (map (chunkOf \<circ> snd) inps)"
    by blast
  have "ptyWrites (markSessionReady now s') = ptyWrites s @ pendingInputs s'"
    using s'(2,3) by (simp add: markSessionReady_writes)
  moreover have "suffix (pendingInputs s') (pendingInputs s @ map (chunkOf \<circ> snd) inps)"
    by (simp only: s'(4) foldl_pushCapped_suffix)
  moreover have "length (pendingInputs s) + length inps \<le> 200 \<longrightarrow>
                 pendingInputs s' = pendingInputs s @ map (chunkOf \<circ> snd) inps"
    by (simp add: s'(4) foldl_pushCapped_small)
  moreover have "inps \<noteq> [] \<longrightarrow> last (pendingInputs s') = chunkOf (snd (last inps))"
    by (simp add: s'(4) foldl_pushCapped_last last_map)
  ultimately show ?thesis using s'(1,2,3) by blast
qed

theorem queued_inputs_flushed_in_order_witness:
  "getSession codexSession ''al-codex-2''
     = Some (0, newSession 2 ''al-codex-2'' ''al'' ''codex'' [] ''chat'' None) \<and>
   \<not> started (newSession 2 ''al-codex-2'' ''al'' ''codex'' [] ''chat'' None) \<and>
   (\<exists>s'. getSession (submitAll demoRules ''al-codex-2'' [(3, RawInput ''ls''), (4, ChatInput ''hi'')] codexSession)
            ''al-codex-2'' = Some (0, s') \<and>
         \<not> started s' \<and> ptyWrites s' = [] \<and>
         ptyWrites (markSessionReady 5 s') = [''ls'', ''hi'' @ CR])"
proof -
  let ?s = "newSession 2 ''al-codex-2'' ''al'' ''codex'' [] ''chat'' None"
  have h2: "\<not> started ?s" by (simp add: newSession_def)
  from queued_inputs_flushed_in_order[OF getSession_codexSession h2, of demoRules
      "[(3, RawInput ''ls''), (4, ChatInput ''hi'')]" 5]
  show ?thesis using getSession_codexSession h2
    by (auto simp: newSession_def chunkOf_def)
qed

text \<open>
  Claim C1 as stated fails when more than 200 inputs are queued: of 201 inputs submitted to
  a session that is not ready, the first one being \<open>first\<close> and the others \<open>x\<close>, the process
  receives on the transition to ready only the last 120.
\<close>

theorem queue_overflow_drops_oldest_inputs:
  "map_option (ptyWrites \<circ> markSessionReady 4 \<circ> snd)
     (getSession (submitAll demoRules ''al-codex-2'' overflowInputs codexSession) ''al-codex-2'')
     = Some (replicate 120 ''x'') \<and>
   map (chunkOf \<circ> snd) overflowInputs = ''first'' # replicate 200 ''x''"
proof -
  let ?s = "newSession 2 ''al-codex-2'' ''al'' ''codex'' [] ''chat'' None"
  have h2: "\<not> started ?s" by (simp add: newSession_def)
  have chunks: "map (chunkOf \<circ> snd) overflowInputs = ''first'' # replicate 200 ''x''"
    by (simp add: overflowInputs_def chunkOf_def)
  from submitAll_queued[OF getSession_codexSession h2, of demoRules overflowInputs]
  obtain s' where s': "getSession (submitAll demoRules ''al-codex-2'' overflowInputs codexSession) ''al-codex-2'' = Some (0, s')"
      "\<not> started s'" "ptyWrites s' = ptyWrites ?s"
      "pendingInputs s' = foldl pushCapped (pendingInputs ?s) (map (chunkOf \<circ> snd) overflowInputs)"
    by blast
  have p0: "pendingInputs ?s = []" by (simp add: newSession_def)
  have "pendingInputs s' = replicate 120 ''x''"
    by (simp only: s'(4) chunks p0 foldl_pushCapped_overflow)
  then have "ptyWrites (markSessionReady 4 s') = replicate 120 ''x''"
    using s'(2,3) by (simp add: markSessionReady_writes newSession_def)
  then show ?thesis using s'(1) chunks by simp
qed

section \<open>Queued chat input for gemini\<close>

text \<open>
  Claim C5, evaluated. A chat message sent to a gemini session before it is ready is
  written to the process in one piece when the session becomes ready, whereas the same
  message sent to the ready session goes through the simulated typing: its first ten
  characters are written and the rest waits for the typing timer.
\<close>

theorem queued_gemini_chat_written_in_one_piece:
  "map_option ptyWrites (heap geminiQueued 0)
     = Some [''gemini'' @ CR, ''hello gemini, are you there?'' @ CR] \<and>
   typingTimers geminiQueued = [] \<and>
   map_option ptyWrites (heap geminiLive 0) = Some [''gemini'' @ CR, ''hello gemi''] \<and>
   typingTimers geminiLive = [(0, ''ni, are you there?'' @ CR)]"
  by (simp add: geminiQueued_def geminiLive_def run_defs)

section \<open>Output before the first user message\<close>

lemma appendAssistantOutput_gate: "noUserMessageYet s \<Longrightarrow> appendAssistantOutput R now s chunk = s"
  by (simp add: appendAssistantOutput_def noUserMessageYet_def)

lemma flushLoop_keeps [simp]:
  "messages (flushLoop now q s) = messages s"
  "userMessageCount (flushLoop now q s) = userMessageCount s"
  "subscribers (flushLoop now q s) = subscribers s"
  "onDataCb (flushLoop now q s) = onDataCb s"
  by (induction q arbitrary: s) (simp_all add: ptyWrite_def touchSession_def)

lemma markSessionReady_keeps [simp]:
  "messages (markSessionReady now s) = messages s"
  "userMessageCount (markSessionReady now s) = userMessageCount s"
  "subscribers (markSessionReady now s) = subscribers s"
  "onDataCb (markSessionReady now s) = onDataCb s"
  by (simp_all add: markSessionReady_def flushPendingInputs_def)

lemma appendTerminalOutputReplay_keeps [simp]:
  "messages (appendTerminalOutputReplay R s d) = messages s"
  "userMessageCount (appendTerminalOutputReplay R s d) = userMessageCount s"
  "subscribers (appendTerminalOutputReplay R s d) = subscribers s"
  "onDataCb (appendTerminalOutputReplay R s d) = onDataCb s"
  by (simp_all add: appendTerminalOutputReplay_def Let_def)

lemma appendOutputBuffer_keeps [simp]:
  "messages (appendOutputBuffer d s) = messages s"
  "userMessageCount (appendOutputBuffer d s) = userMessageCount s"
  "subscribers (appendOutputBuffer d s) = subscribers s"
  "onDataCb (appendOutputBuffer d s) = onDataCb s"
  by (simp_all add: appendOutputBuffer_def Let_def)

lemma appendAssistantOutput_keeps [simp]:
  "subscribers (appendAssistantOutput R now s d) = subscribers s"
  "onDataCb (appendAssistantOutput R now s d) = onDataCb s"
  by (simp_all add: appendAssistantOutput_def Let_def touchSession_def split: option.splits)

lemma ptyOnData_gate:
  assumes "heap st a = Some s" and "noUserMessageYet s"
  shows "\<exists>s'. heap (snd (ptyOnData R now a d st)) a = Some s' \<and> messages s' = messages s \<and>
              noUserMessageYet s'"
proof -
  let ?s4 = "appendTerminalOutputReplay R (appendOutputBuffer d
      (if \<not> started (touchSession now s) \<and> startCommandSent (touchSession now s) \<and> isSessionReadySignal R d
       then markSessionReady now (touchSession now s) else touchSession now s)) d"
  have m: "messages ?s4 = messages s" "userMessageCount ?s4 = userMessageCount s"
    by (simp_all add: touchSession_def)
  then have g: "noUserMessageYet ?s4" using assms(2) by (simp add: noUserMessageYet_def)
  have a5: "appendAssistantOutput R now ?s4 d = ?s4" by (rule appendAssistantOutput_gate[OF g])
  show ?thesis
    using assms(1) m g a5
    by (auto simp: ptyOnData_def Let_def putSession_def noUserMessageYet_def
             split: option.splits sum.splits)
qed

lemma feedOutput_Cons_snd:
  "snd (feedOutput R a ((now, d) # rest) st) = snd (feedOutput R a rest (snd (ptyOnData R now a d st)))"
  by (simp add: Let_def split: prod.splits)

lemma feedOutput_Cons_fst:
  "fst (feedOutput R a ((now, d) # rest) st) =
     fst (ptyOnData R now a d st) # fst (feedOutput R a rest (snd (ptyOnData R now a d st)))"
  by (simp add: Let_def split: prod.splits)

text \<open>
  Claim C6. As long as no user message has been recorded for a session (its user message
  counter is 0 and its transcript holds no user message), every output chunk of its process
  is discarded by the transcript builder: after any sequence of chunks the messages are what
  they were, and the session is still waiting for its first user message. So assistant
  output only enters the transcript once a user message has been recorded.
\<close>

theorem output_before_first_user_message_discarded:
  assumes "heap st a = Some s" and "noUserMessageYet s"
  shows "\<exists>s'. heap (snd (feedOutput R a chunks st)) a = Some s' \<and> messages s' = messages s \<and>
              noUserMessageYet s'"
  using assms
proof (induction chunks arbitrary: st s)
  case Nil
  then show ?case by simp
next
  case (Cons p chunks)
  obtain now d where p: "p = (now, d)" by (cases p)
  from ptyOnData_gate[OF Cons.prems, of R now d]
  obtain s1 where s1: "heap (snd (ptyOnData R now a d st)) a = Some s1"
      "messages s1 = messages s" "noUserMessageYet s1"
    by blast
  from Cons.IH[OF s1(1) s1(3)] s1(2) show ?case
    by (simp only: p feedOutput_Cons_snd)
qed

theorem output_before_first_user_message_discarded_witness:
  "heap codexSession 0 = Some (newSession 2 ''al-codex-2'' ''al'' ''codex'' [] ''chat'' None) \<and>
   noUserMessageYet (newSession 2 ''al-codex-2'' ''al'' ''codex'' [] ''chat'' None) \<and>
   mode (newSession 2 ''al-codex-2'' ''al'' ''codex'' [] ''chat'' None) = Chat \<and>
   (\<exists>s'. heap (snd (feedOutput demoRules 0 [(3, ''bash-5.1$ ''), (4, ''Welcome to codex'')] codexSession)) 0 = Some s' \<and>
         messages s' = [] \<and> noUserMessageYet s')"
proof -
  let ?s = "newSession 2 ''al-codex-2'' ''al'' ''codex'' [] ''chat'' None"
  have g: "noUserMessageYet ?s" by (simp add: noUserMessageYet_def newSession_def)
  from output_before_first_user_message_discarded[OF heap_codexSession g, of demoRules
      "[(3, ''bash-5.1$ ''), (4, ''Welcome to codex'')]"]
  show ?thesis using heap_codexSession g by (auto simp: newSession_def)
qed

section \<open>Output fan-out\<close>

lemma fanOut_length [simp]: "length (fanOut d subs) = length subs"
  by (induction subs) (auto split: sum.splits)

lemma fanOut_nth_ok:
  "i < length subs \<Longrightarrow> subs ! i = (fnId, fn) \<Longrightarrow> \<not> subThrows fn d \<Longrightarrow>
   fanOut d subs ! i = (fnId, fn\<lparr>inbox := inbox fn @ [d]\<rparr>)"
proof (induction subs arbitrary: i)
  case Nil
  then show ?case by simp
next
  case (Cons p subs)
  obtain k g where p: "p = (k, g)" by (cases p)
  show ?case
  proof (cases i)
    case 0
    with Cons.prems p show ?thesis by (simp add: callCallback_def)
  next
    case (Suc j)
    with Cons.prems Cons.IH[of j] p show ?thesis by (simp split: sum.splits)
  qed
qed

lemma ptyOnData_fanOut:
  assumes "heap st a = Some s"
  shows "\<exists>s'. heap (snd (ptyOnData R now a d st)) a = Some s' \<and>
              subscribers s' = fanOut d (subscribers s) \<and>
              (case onDataCb s of
                 None \<Rightarrow> onDataCb s' = None \<and> fst (ptyOnData R now a d st) = Inr ()
               | Some cb \<Rightarrow>
                   if subThrows cb d
                   then onDataCb s' = Some cb \<and> fst (ptyOnData R now a d st) = Inl CallbackError
                   else onDataCb s' = Some (cb\<lparr>inbox := inbox cb @ [d]\<rparr>) \<and>
                        fst (ptyOnData R now a d st) = Inr ())"
  using assms
  by (auto simp: ptyOnData_def Let_def putSession_def touchSession_def callCallback_def
           split: option.splits sum.splits)

text \<open>
  Claim C8. Take any subscriber of a session whose callback does not throw on the chunks
  the process emits; the other subscribers may throw on any of them. After the chunks have
  gone through the \<open>onData\<close> handler, that subscriber has handled every chunk, in the order
  in which the process emitted them. No exception of a subscriber leaves the handler: when
  the session has no output callback of its own, or one that does not throw, every run of
  the handler returns normally and that callback too has handled every chunk in order.
\<close>

theorem fan_out_isolates_failing_subscribers:
  assumes "heap st a = Some s" and "i < length (subscribers s)" and "subscribers s ! i = (fnId, fn)"
    and "\<forall>d \<in> set (map snd chunks). \<not> subThrows fn d"
  shows "\<exists>s'. heap (snd (feedOutput R a chunks st)) a = Some s' \<and>
              length (subscribers s') = length (subscribers s) \<and>
              subscribers s' ! i = (fnId, fn\<lparr>inbox := inbox fn @ map snd chunks\<rparr>) \<and>
              (case onDataCb s of
                 None \<Rightarrow> onDataCb s' = None \<and> fst (feedOutput R a chunks st) = map (\<lambda>c. Inr ()) chunks
               | Some cb \<Rightarrow>
                   (\<forall>d \<in> set (map snd chunks). \<not> subThrows cb d) \<longrightarrow>
                   onDataCb s' = Some (cb\<lparr>inbox := inbox cb @ map snd chunks\<rparr>) \<and>
                   fst (feedOutput R a chunks st) = map (\<lambda>c. Inr ()) chunks)"
  using assms
proof (induction chunks arbitrary: st s fn)
  case Nil
  then show ?case by (simp split: option.splits)
next
  case (Cons p chunks)
  obtain now d where p: "p = (now, d)" by (cases p)
  let ?st1 = "snd (ptyOnData R now a d st)"
  let ?fn1 = "fn\<lparr>inbox := inbox fn @ [d]\<rparr>"
  from ptyOnData_fanOut[OF Cons.prems(1), of R now d]
  obtain s1 where s1: "heap ?st1 a = Some s1" "subscribers s1 = fanOut d (subscribers s)"
    and cb1: "(case onDataCb s of
                 None \<Rightarrow> onDataCb s1 = None \<and> fst (ptyOnData R now a d st) = Inr ()
               | Some cb \<Rightarrow>
                   if subThrows cb d
                   then onDataCb s1 = Some cb \<and> fst (ptyOnData R now a d st) = Inl CallbackError
                   else onDataCb s1 = Some (cb\<lparr>inbox := inbox cb @ [d]\<rparr>) \<and>
                        fst (ptyOnData R now a d st) = Inr ())"
    by blast
  have nd: "\<not> subThrows fn d" using Cons.prems(4) p by simp
  have len1: "i < length (subscribers s1)" using s1(2) Cons.prems(2) by simp
  have nth1: "subscribers s1 ! i = (fnId, ?fn1)"
    using fanOut_nth_ok[OF Cons.prems(2,3) nd] s1(2) by simp
  have rest: "\<forall>d \<in> set (map snd chunks). \<not> subThrows ?fn1 d" using Cons.prems(4) by simp
  from Cons.IH[OF s1(1) len1 nth1 rest]
  obtain s' where s': "heap (snd (feedOutput R a chunks ?st1)) a = Some s'"
      "length (subscribers s') = length (subscribers s1)"
      "subscribers s' ! i = (fnId, ?fn1\<lparr>inbox := inbox ?fn1 @ map snd chunks\<rparr>)"
    and cb': "(case onDataCb s1 of
                 None \<Rightarrow> onDataCb s' = None \<and> fst (feedOutput R a chunks ?st1) = map (\<lambda>c. Inr ()) chunks
               | Some cb \<Rightarrow>
                   (\<forall>d \<in> set (map snd chunks). \<not> subThrows cb d) \<longrightarrow>
                   onDataCb s' = Some (cb\<lparr>inbox := inbox cb @ map snd chunks\<rparr>) \<and>
                   fst (feedOutput R a chunks ?st1) = map (\<lambda>c. Inr ()) chunks)"
    by blast
  have h: "heap (snd (feedOutput R a (p # chunks) st)) a = Some s'"
    using s'(1) by (simp only: p feedOutput_Cons_snd)
  have l: "length (subscribers s') = length (subscribers s)" using s'(2) s1(2) by simp
  have n: "subscribers s' ! i = (fnId, fn\<lparr>inbox := inbox fn @ map snd (p # chunks)\<rparr>)"
    using s'(3) by (simp add: p)
  have c: "(case onDataCb s of
              None \<Rightarrow> onDataCb s' = None \<and>
                      fst (feedOutput R a (p # chunks) st) = map (\<lambda>c. Inr ()) (p # chunks)
            | Some cb \<Rightarrow>
                (\<forall>d \<in> set (map snd (p # chunks)). \<not> subThrows cb d) \<longrightarrow>
                onDataCb s' = Some (cb\<lparr>inbox := inbox cb @ map snd (p # chunks)\<rparr>) \<and>
                fst (feedOutput R a (p # chunks) st) = map (\<lambda>c. Inr ()) (p # chunks))"
    using cb1 cb'
    by (auto simp: p feedOutput_Cons_fst simp del: feedOutput.simps split: option.splits if_splits)
  from h l n c show ?case by blast
qed

lemma heap_twoViewers:
  "heap twoViewers 0 =
     Some ((newSession 2 ''al-codex-2'' ''al'' ''codex'' [] ''chat'' None)
             \<lparr>subscribers := [(1, failingViewer), (2, quietViewer)]\<rparr>)"
  by (simp add: twoViewers_def run_defs)

theorem fan_out_isolates_failing_subscribers_witness:
  "heap twoViewers 0 =
     Some ((newSession 2 ''al-codex-2'' ''al'' ''codex'' [] ''chat'' None)
             \<lparr>subscribers := [(1, failingViewer), (2, quietViewer)]\<rparr>) \<and>
   subThrows failingViewer ''a'' \<and> subThrows failingViewer ''b'' \<and>
   \<not> subThrows quietViewer ''a'' \<and> \<not> subThrows quietViewer ''b'' \<and>
   (\<exists>s'. heap (snd (feedOutput demoRules 0 [(3, ''a''), (4, ''b'')] twoViewers)) 0 = Some s' \<and>
         subscribers s' ! 1 = (2, quietViewer\<lparr>inbox := [''a'', ''b'']\<rparr>) \<and>
         fst (feedOutput demoRules 0 [(3, ''a''), (4, ''b'')] twoViewers) = [Inr (), Inr ()])"
proof -
  let ?s = "(newSession 2 ''al-codex-2'' ''al'' ''codex'' [] ''chat'' None)
              \<lparr>subscribers := [(1, failingViewer), (2, quietViewer)]\<rparr>"
  have i: "1 < length (subscribers ?s)" by simp
  have n: "subscribers ?s ! 1 = (2, quietViewer)" by simp
  have q: "\<forall>d \<in> set (map snd [(3::int, ''a''), (4, ''b'')]). \<not> subThrows quietViewer d"
    by (simp add: quietViewer_def)
  have cb: "onDataCb ?s = None" by (simp add: newSession_def)
  from fan_out_isolates_failing_subscribers[OF heap_twoViewers i n q, of demoRules]
  show ?thesis using heap_twoViewers q cb
    by (auto simp: failingViewer_def quietViewer_def simp del: feedOutput.simps)
qed

section \<open>Reading transcripts\<close>



section \<open>Frame facts: which fields an operation leaves alone\<close>

lemma readHistoryForUser_frame [simp]:
  "heap (snd (readHistoryForUser now u st)) = heap st"
  "sessions (snd (readHistoryForUser now u st)) = sessions st"
  "savedLog (snd (readHistoryForUser now u st)) = savedLog st"
  "nextAddr (snd (readHistoryForUser now u st)) = nextAddr st"
  "transcriptFiles (snd (readHistoryForUser now u st)) = transcriptFiles st"
  "agents (snd (readHistoryForUser now u st)) = agents st"
  by (simp_all add: readHistoryForUser_def Let_def split: option.splits hist_file.splits)

lemma writeHistoryForUser_frame [simp]:
  "heap (writeHistoryForUser now u h st) = heap st"
  "sessions (writeHistoryForUser now u h st) = sessions st"
  "savedLog (writeHistoryForUser now u h st) = savedLog st"
  "nextAddr (writeHistoryForUser now u h st) = nextAddr st"
  "transcriptFiles (writeHistoryForUser now u h st) = transcriptFiles st"
  "agents (writeHistoryForUser now u h st) = agents st"
  by (simp_all add: writeHistoryForUser_def Let_def)

lemma markUserSessionEnded_frame [simp]:
  "heap (markUserSessionEnded u sid tm st) = heap st"
  "savedLog (markUserSessionEnded u sid tm st) = savedLog st"
  "nextAddr (markUserSessionEnded u sid tm st) = nextAddr st"
  "transcriptFiles (markUserSessionEnded u sid tm st) = transcriptFiles st"
  "agents (markUserSessionEnded u sid tm st) = agents st"
  by (simp_all add: markUserSessionEnded_def split: option.splits)

lemma persistRuntimeState_frame [simp]:
  "heap (persistRuntimeState now st) = heap st"
  "savedLog (persistRuntimeState now st) = savedLog st"
  "nextAddr (persistRuntimeState now st) = nextAddr st"
  "transcriptFiles (persistRuntimeState now st) = transcriptFiles st"
  "agents (persistRuntimeState now st) = agents st"
  by (simp_all add: persistRuntimeState_def Let_def)

lemma unregister_frame [simp]:
  "heap (unregister now sid u st) = heap st"
  "savedLog (unregister now sid u st) = savedLog st"
  "nextAddr (unregister now sid u st) = nextAddr st"
  "transcriptFiles (unregister now sid u st) = transcriptFiles st"
  "agents (unregister now sid u st) = agents st"
  by (simp_all add: unregister_def Let_def split: option.splits)

lemma putSession_frame [simp]:
  "heap (putSession a s st) = (heap st)(a \<mapsto> s)"
  "sessions (putSession a s st) = sessions st"
  "savedLog (putSession a s st) = savedLog st"
  "nextAddr (putSession a s st) = nextAddr st"
  "transcriptFiles (putSession a s st) = transcriptFiles st"
  "agents (putSession a s st) = agents st"
  by (simp_all add: putSession_def)

lemma saveHistory_heap:
  "heap (saveHistory now a st) = (heap st)(a := map_option (\<lambda>s. s\<lparr>historySaved := True\<rparr>) (heap st a))"
  by (auto simp: saveHistory_def Let_def fun_eq_iff case_prod_beta split: option.splits)

lemma saveHistory_frame [simp]:
  "sessions (saveHistory now a st) = sessions st"
  "nextAddr (saveHistory now a st) = nextAddr st"
  "agents (saveHistory now a st) = agents st"
  by (auto simp: saveHistory_def Let_def case_prod_beta split: option.splits)

lemma saveHistory_savedLog:
  "savedLog (saveHistory now a st) =
     (case heap st a of
        None \<Rightarrow> savedLog st
      | Some s \<Rightarrow> if historySaved s then savedLog st else savedLog st @ [a])"
  by (auto simp: saveHistory_def Let_def case_prod_beta split: option.splits)

lemma saveHistory_transcriptFiles:
  "transcriptFiles (saveHistory now a st) =
     (case heap st a of
        None \<Rightarrow> transcriptFiles st
      | Some s \<Rightarrow>
          if historySaved s \<or> mode s = Terminal then transcriptFiles st
          else (transcriptFiles st)((username s, sessionId s) \<mapsto>
                  TranscriptJson (transcriptOf (Some now) None (s\<lparr>historySaved := True\<rparr>))))"
  by (auto simp: saveHistory_def Let_def case_prod_beta split: option.splits)

lemma destroySession_found:
  assumes "map_of (sessions st) sid = Some a" and "heap st a = Some s"
  shows "sessions (destroySession now sid st) = AList.delete sid (sessions st)"
    and "heap (destroySession now sid st) =
           (heap st)(a \<mapsto> s\<lparr>readyFallbackTimer := False, ptyKilled := True, historySaved := True\<rparr>)"
    and "savedLog (destroySession now sid st) = (if historySaved s then savedLog st else savedLog st @ [a])"
    and "transcriptFiles (destroySession now sid st) =
           (if historySaved s \<or> mode s = Terminal then transcriptFiles st
            else (transcriptFiles st)((username s, sessionId s) \<mapsto>
                   TranscriptJson (transcriptOf (Some now) None
                     (s\<lparr>readyFallbackTimer := False, ptyKilled := True, historySaved := True\<rparr>))))"
    and "agents (destroySession now sid st) = agents st"
    and "nextAddr (destroySession now sid st) = nextAddr st"
  using assms
  by (simp_all add: destroySession_def getSession_def Let_def saveHistory_heap saveHistory_savedLog
        saveHistory_transcriptFiles)

lemma createSession_known:
  assumes "agents st aid = Some ag"
  shows "fst (createSession now u aid mid modeArg cb st) = Inr (u @ ''-'' @ aid @ ''-'' @ showInt now)"
    and "sessions (snd (createSession now u aid mid modeArg cb st)) =
           AList.update (u @ ''-'' @ aid @ ''-'' @ showInt now) (nextAddr st) (sessions st)"
    and "heap (snd (createSession now u aid mid modeArg cb st)) =
           (heap st)(nextAddr st \<mapsto> newSession now (u @ ''-'' @ aid @ ''-'' @ showInt now) u aid mid modeArg cb)"
    and "nextAddr (snd (createSession now u aid mid modeArg cb st)) = Suc (nextAddr st)"
    and "savedLog (snd (createSession now u aid mid modeArg cb st)) = savedLog st"
    and "transcriptFiles (snd (createSession now u aid mid modeArg cb st)) = transcriptFiles st"
    and "agents (snd (createSession now u aid mid modeArg cb st)) = agents st"
  using assms by (simp_all add: createSession_def Let_def)


section \<open>A live session of another user and the requester's own files\<close>

lemma newManager_no_snapshot:
  "newManager now cfgAgents cfgTimeout hf tf None =
     \<lparr> agents = fold (\<lambda>ag m. m(agentIdent ag \<mapsto> ag)) cfgAgents Map.empty, heap = Map.empty,
       nextAddr = 0, sessions = [], userSessions = Map.empty, activeSessions = Map.empty,
       historyCache = Map.empty, historyFiles = hf, transcriptFiles = tf, runtimeStateFile = None,
       inactiveSessionTimeout = timeoutOfConfig cfgTimeout, startTimers = [], typingTimers = [],
       savedLog = [] \<rparr>"
  by (simp add: newManager_def initialFields_def recoverRuntimeState_def)


section \<open>The idle reaper\<close>








section \<open>The one-shot history guard\<close>

lemma historySaved_session_ops [simp]:
  "historySaved (touchSession now s) = historySaved s"
  "historySaved (ptyWrite text s) = historySaved s"
  "historySaved (enqueueInput now text s) = historySaved s"
  "historySaved (appendTerminalInputReplay R s c) = historySaved s"
  "historySaved (appendTerminalOutputReplay R s c) = historySaved s"
  "historySaved (appendOutputBuffer c s) = historySaved s"
  by (simp_all add: touchSession_def ptyWrite_def enqueueInput_def appendTerminalInputReplay_def
        appendTerminalOutputReplay_def appendOutputBuffer_def Let_def split: prod.splits)

lemma historySaved_flushLoop [simp]: "historySaved (flushLoop now q s) = historySaved s"
  by (induction q arbitrary: s) simp_all

lemma historySaved_markSessionReady [simp]: "historySaved (markSessionReady now s) = historySaved s"
  by (simp add: markSessionReady_def flushPendingInputs_def)

lemma historySaved_appendAssistantOutput [simp]:
  "historySaved (appendAssistantOutput R now s c) = historySaved s"
  by (simp add: appendAssistantOutput_def Let_def split: option.splits)

lemma sameSavedFlags_refl [simp]: "sameSavedFlags st st"
  by (simp add: sameSavedFlags_def)

lemma sameSavedFlags_trans: "sameSavedFlags st st1 \<Longrightarrow> sameSavedFlags st1 st2 \<Longrightarrow> sameSavedFlags st st2"
  by (simp add: sameSavedFlags_def)

lemma sameSavedFlags_fields:
  "heap st' = heap st \<Longrightarrow> nextAddr st' = nextAddr st \<Longrightarrow> savedLog st' = savedLog st \<Longrightarrow>
   sameSavedFlags st st'"
  by (simp add: sameSavedFlags_def)

lemma sameSavedFlags_putSession:
  "heap st a = Some s \<Longrightarrow> historySaved s' = historySaved s \<Longrightarrow> sameSavedFlags st (putSession a s' st)"
  by (simp add: sameSavedFlags_def)

lemma sameSavedFlags_imp_grow: "sameSavedFlags st st' \<Longrightarrow> savedFlagsGrow st st'"
proof -
  assume same: "sameSavedFlags st st'"
  have flags: "\<And>a. map_option historySaved (heap st' a) = map_option historySaved (heap st a)"
    using same by (simp add: sameSavedFlags_def)
  have obj: "\<And>a s. heap st a = Some s \<Longrightarrow> \<exists>s'. heap st' a = Some s' \<and> historySaved s' = historySaved s"
  proof -
    fix a s assume "heap st a = Some s"
    then have "map_option historySaved (heap st' a) = Some (historySaved s)" using flags[of a] by simp
    then show "\<exists>s'. heap st' a = Some s' \<and> historySaved s' = historySaved s" by auto
  qed
  have none: "\<And>a. heap st a = None \<Longrightarrow> heap st' a = None"
    using flags by (metis map_option_is_None)
  show ?thesis
    unfolding savedFlagsGrow_def savedLogOK_def
  proof (intro impI conjI allI ballI)
    assume ok: "distinct (savedLog st) \<and>
      (\<forall>a\<in>set (savedLog st). case heap st a of None \<Rightarrow> False | Some s \<Rightarrow> historySaved s) \<and>
      (\<forall>a\<ge>nextAddr st. heap st a = None)"
    show "distinct (savedLog st')" using ok same by (simp add: sameSavedFlags_def)
    show "\<And>a. a \<in> set (savedLog st') \<Longrightarrow> case heap st' a of None \<Rightarrow> False | Some s \<Rightarrow> historySaved s"
    proof -
      fix a assume "a \<in> set (savedLog st')"
      then have "a \<in> set (savedLog st)" using same by (simp add: sameSavedFlags_def)
      then obtain s where s: "heap st a = Some s" "historySaved s" using ok by (auto split: option.splits)
      with obj[OF s(1)] show "case heap st' a of None \<Rightarrow> False | Some s \<Rightarrow> historySaved s" by auto
    qed
    show "\<And>a. nextAddr st' \<le> a \<Longrightarrow> heap st' a = None"
      using ok same none by (simp add: sameSavedFlags_def)
    show "\<And>a s. heap st a = Some s \<Longrightarrow> \<exists>s'. heap st' a = Some s' \<and> (historySaved s \<longrightarrow> historySaved s')"
      using obj by fastforce
  qed
qed

lemma savedFlagsGrow_refl [simp]: "savedFlagsGrow st st"
  by (simp add: savedFlagsGrow_def)

lemma savedFlagsGrow_trans: "savedFlagsGrow st st1 \<Longrightarrow> savedFlagsGrow st1 st2 \<Longrightarrow> savedFlagsGrow st st2"
  unfolding savedFlagsGrow_def by (meson)

lemma savedFlagsGrow_fold:
  "(\<And>x s. savedFlagsGrow s (f x s)) \<Longrightarrow> savedFlagsGrow st (fold f xs st)"
proof (induction xs arbitrary: st)
  case Nil
  then show ?case by simp
next
  case (Cons x xs)
  have "savedFlagsGrow st (f x st)" by (rule Cons.prems)
  moreover have "savedFlagsGrow (f x st) (fold f xs (f x st))" by (rule Cons.IH) (rule Cons.prems)
  ultimately show ?case by (simp add: savedFlagsGrow_trans)
qed

lemma same_unregister: "sameSavedFlags st (unregister now sid u st)"
  by (rule sameSavedFlags_fields) simp_all

lemma same_persistRuntimeState: "sameSavedFlags st (persistRuntimeState now st)"
  by (rule sameSavedFlags_fields) simp_all

lemma same_markUserSessionEnded: "sameSavedFlags st (markUserSessionEnded u sid tm st)"
  by (rule sameSavedFlags_fields) simp_all

lemma grow_saveHistory: "savedFlagsGrow st (saveHistory now a st)"
proof (cases "heap st a")
  case None
  then show ?thesis by (simp add: saveHistory_def)
next
  case (Some s)
  show ?thesis
  proof (cases "historySaved s")
    case True
    then show ?thesis using Some by (simp add: saveHistory_def)
  next
    case False
    have h: "heap (saveHistory now a st) = (heap st)(a \<mapsto> s\<lparr>historySaved := True\<rparr>)"
      using Some by (simp add: saveHistory_heap)
    have l: "savedLog (saveHistory now a st) = savedLog st @ [a]"
      using Some False by (simp add: saveHistory_savedLog)
    show ?thesis
      unfolding savedFlagsGrow_def savedLogOK_def
    proof (intro impI conjI allI ballI)
      assume ok: "distinct (savedLog st) \<and>
        (\<forall>a\<in>set (savedLog st). case heap st a of None \<Rightarrow> False | Some s \<Rightarrow> historySaved s) \<and>
        (\<forall>a\<ge>nextAddr st. heap st a = None)"
      have notin: "a \<notin> set (savedLog st)" using ok Some False by (auto split: option.splits)
      show "distinct (savedLog (saveHistory now a st))" using ok notin by (simp add: l)
      show "\<And>b. b \<in> set (savedLog (saveHistory now a st)) \<Longrightarrow>
              case heap (saveHistory now a st) b of None \<Rightarrow> False | Some s \<Rightarrow> historySaved s"
        using ok by (auto simp: l h split: option.splits)
      show "\<And>b. nextAddr (saveHistory now a st) \<le> b \<Longrightarrow> heap (saveHistory now a st) b = None"
        using ok Some by (auto simp: h)
      show "\<And>b s0. heap st b = Some s0 \<Longrightarrow>
              \<exists>s'. heap (saveHistory now a st) b = Some s' \<and> (historySaved s0 \<longrightarrow> historySaved s')"
        using Some by (auto simp: h)
    qed
  qed
qed

lemma grow_createSession: "savedFlagsGrow st (snd (createSession now u aid mid modeArg cb st))"
proof (cases "agents st aid")
  case None
  then show ?thesis by (simp add: createSession_def)
next
  case (Some ag)
  note eff = createSession_known[OF Some, of now u mid modeArg cb]
  show ?thesis
    unfolding savedFlagsGrow_def savedLogOK_def
  proof (intro impI conjI allI ballI)
    assume ok: "distinct (savedLog st) \<and>
      (\<forall>a\<in>set (savedLog st). case heap st a of None \<Rightarrow> False | Some s \<Rightarrow> historySaved s) \<and>
      (\<forall>a\<ge>nextAddr st. heap st a = None)"
    then have fresh: "heap st (nextAddr st) = None" by simp
    show "distinct (savedLog (snd (createSession now u aid mid modeArg cb st)))"
      using ok by (simp add: eff)
    show "\<And>b. b \<in> set (savedLog (snd (createSession now u aid mid modeArg cb st))) \<Longrightarrow>
            case heap (snd (createSession now u aid mid modeArg cb st)) b of
              None \<Rightarrow> False | Some s \<Rightarrow> historySaved s"
      using ok fresh by (auto simp: eff split: option.splits)
    show "\<And>b. nextAddr (snd (createSession now u aid mid modeArg cb st)) \<le> b \<Longrightarrow>
            heap (snd (createSession now u aid mid modeArg cb st)) b = None"
      using ok by (auto simp: eff)
    show "\<And>b s0. heap st b = Some s0 \<Longrightarrow>
            \<exists>s'. heap (snd (createSession now u aid mid modeArg cb st)) b = Some s' \<and>
                 (historySaved s0 \<longrightarrow> historySaved s')"
      using fresh by (auto simp: eff)
  qed
qed

lemma grow_destroySession: "savedFlagsGrow st (destroySession now sid st)"
proof (cases "getSession st sid")
  case None
  then show ?thesis by (simp add: destroySession_def)
next
  case (Some p)
  obtain a s where p: "p = (a, s)" by (cases p)
  have hs: "heap st a = Some s" using Some p getSession_SomeD by blast
  let ?st1 = "putSession a (s\<lparr>readyFallbackTimer := False, ptyKilled := True\<rparr>) st"
  have "savedFlagsGrow st ?st1"
    by (rule sameSavedFlags_imp_grow, rule sameSavedFlags_putSession[OF hs]) simp
  moreover have "savedFlagsGrow ?st1 (saveHistory now a ?st1)" by (rule grow_saveHistory)
  moreover have "savedFlagsGrow (saveHistory now a ?st1) (unregister now sid (username s) (saveHistory now a ?st1))"
    by (rule sameSavedFlags_imp_grow) (rule same_unregister)
  ultimately show ?thesis
    using Some p by (simp add: destroySession_def Let_def) (blast intro: savedFlagsGrow_trans)
qed

lemma grow_ptyOnExit: "savedFlagsGrow st (ptyOnExit now a st)"
proof (cases "heap st a")
  case None
  then show ?thesis by (simp add: ptyOnExit_def)
next
  case (Some s)
  let ?st1 = "putSession a (s\<lparr>readyFallbackTimer := False\<rparr>) st"
  let ?st2 = "saveHistory now a ?st1"
  let ?st3 = "unregister now (sessionId s) (username s) ?st2"
  have g1: "savedFlagsGrow st ?st1"
    by (rule sameSavedFlags_imp_grow, rule sameSavedFlags_putSession[OF Some]) simp
  have g2: "savedFlagsGrow ?st1 ?st2" by (rule grow_saveHistory)
  have g3: "savedFlagsGrow ?st2 ?st3" by (rule sameSavedFlags_imp_grow) (rule same_unregister)
  have g123: "savedFlagsGrow st ?st3" using g1 g2 g3 by (blast intro: savedFlagsGrow_trans)
  show ?thesis
  proof (cases "heap ?st3 a")
    case None
    then show ?thesis using Some g123 by (simp add: ptyOnExit_def Let_def)
  next
    case (Some s3)
    have "savedFlagsGrow ?st3 (putSession a (s3\<lparr>onExitCalls := Suc (onExitCalls s3)\<rparr>) ?st3)"
      by (rule sameSavedFlags_imp_grow, rule sameSavedFlags_putSession[OF Some]) simp
    then have "savedFlagsGrow st (putSession a (s3\<lparr>onExitCalls := Suc (onExitCalls s3)\<rparr>) ?st3)"
      using g123 by (blast intro: savedFlagsGrow_trans)
    then show ?thesis using \<open>heap st a = Some s\<close> Some by (simp add: ptyOnExit_def Let_def)
  qed
qed

lemma grow_reapOne: "savedFlagsGrow st (reapOne now sid st)"
proof -
  have "savedFlagsGrow st (destroySession now sid st)" by (rule grow_destroySession)
  moreover have "\<And>u. savedFlagsGrow (destroySession now sid st)
                      (markUserSessionEnded u sid now (destroySession now sid st))"
    by (rule sameSavedFlags_imp_grow) (rule same_markUserSessionEnded)
  ultimately show ?thesis
    by (auto simp: reapOne_def Let_def split: option.splits intro: savedFlagsGrow_trans)
qed

lemma same_sendInput: "sameSavedFlags st (snd (sendInput R now sid text st))"
  by (auto simp: sendInput_def Let_def split: option.splits dest!: getSession_SomeD
           intro!: sameSavedFlags_putSession)

lemma same_typeNext: "sameSavedFlags st (typeNext a chars st)"
  by (auto simp: typeNext_def Let_def sameSavedFlags_def split: option.splits)

lemma same_sendChatInput: "sameSavedFlags st (snd (sendChatInput R now sid text st))"
proof (cases "getSession st sid")
  case None
  then show ?thesis by (simp add: sendChatInput_def)
next
  case (Some p)
  obtain a s where p: "p = (a, s)" by (cases p)
  have hs: "heap st a = Some s" using Some p getSession_SomeD by blast
  let ?s1 = "appendTerminalInputReplay R s (text @ CR)"
  have t: "sameSavedFlags st (putSession a (touchSession now ?s1) st)"
    by (rule sameSavedFlags_putSession[OF hs]) simp
  have ty: "sameSavedFlags st (simulateTyping a (text @ CR) (putSession a (touchSession now ?s1) st))"
    using t same_typeNext[of "putSession a (touchSession now ?s1) st" a "text @ CR"]
    by (auto simp: simulateTyping_def intro: sameSavedFlags_trans)
  show ?thesis
    using Some p hs ty
    by (auto simp: sendChatInput_def Let_def intro!: sameSavedFlags_putSession)
qed

lemma same_typingTimerFired: "sameSavedFlags st (typingTimerFired st)"
proof (cases "typingTimers st")
  case Nil
  then show ?thesis by (simp add: typingTimerFired_def)
next
  case (Cons p rest)
  obtain a chars where p: "p = (a, chars)" by (cases p)
  have "sameSavedFlags st (st\<lparr>typingTimers := rest\<rparr>)" by (rule sameSavedFlags_fields) simp_all
  then show ?thesis
    using Cons p same_typeNext[of "st\<lparr>typingTimers := rest\<rparr>" a chars]
    by (auto simp: typingTimerFired_def intro: sameSavedFlags_trans)
qed

lemma same_startTimerFired: "sameSavedFlags st (startTimerFired st)"
  by (auto simp: startTimerFired_def Let_def sameSavedFlags_def split: list.splits option.splits)

lemma same_readyFallbackFired: "sameSavedFlags st (readyFallbackFired now a st)"
  by (auto simp: readyFallbackFired_def sameSavedFlags_def split: option.splits)

lemma same_recordUserMessage: "sameSavedFlags st (snd (recordUserMessage R now sid text st))"
  by (auto simp: recordUserMessage_def Let_def sameSavedFlags_def touchSession_def
           split: option.splits dest!: getSession_SomeD)

lemma same_addFile: "sameSavedFlags st (addFile now sid filePath fileName st)"
  by (auto simp: addFile_def sameSavedFlags_def touchSession_def split: option.splits dest!: getSession_SomeD)

lemma same_addSubscriber: "sameSavedFlags st (addSubscriber sid fnId fn st)"
  by (auto simp: addSubscriber_def sameSavedFlags_def split: option.splits dest!: getSession_SomeD)

lemma same_removeSubscriber: "sameSavedFlags st (removeSubscriber sid fnId st)"
  by (auto simp: removeSubscriber_def sameSavedFlags_def split: option.splits dest!: getSession_SomeD)

lemma same_ptyOnData: "sameSavedFlags st (snd (ptyOnData R now a d st))"
  by (auto simp: ptyOnData_def Let_def sameSavedFlags_def split: option.splits sum.splits)

lemma grow_step: "savedFlagsGrow st (step R ev st)"
proof (cases ev)
  case (CreateSession now u aid mid modeArg cb)
  then show ?thesis by (simp add: grow_createSession)
next
  case StartTimerFired
  then show ?thesis by (simp add: sameSavedFlags_imp_grow same_startTimerFired)
next
  case (ReadyFallbackFired now a)
  then show ?thesis by (simp add: sameSavedFlags_imp_grow same_readyFallbackFired)
next
  case TypingTimerFired
  then show ?thesis by (simp add: sameSavedFlags_imp_grow same_typingTimerFired)
next
  case (SendInput now sid inp)
  then show ?thesis by (simp add: sameSavedFlags_imp_grow same_sendInput)
next
  case (SendChatInput now sid inp)
  then show ?thesis by (simp add: sameSavedFlags_imp_grow same_sendChatInput)
next
  case (RecordUserMessage now sid inp)
  then show ?thesis by (simp add: sameSavedFlags_imp_grow same_recordUserMessage)
next
  case (AddFile now sid filePath fileName)
  then show ?thesis by (simp add: sameSavedFlags_imp_grow same_addFile)
next
  case (AddSubscriber sid fnId fn)
  then show ?thesis by (simp add: sameSavedFlags_imp_grow same_addSubscriber)
next
  case (RemoveSubscriber sid fnId)
  then show ?thesis by (simp add: sameSavedFlags_imp_grow same_removeSubscriber)
next
  case (PtyData now a d)
  then show ?thesis by (simp add: sameSavedFlags_imp_grow same_ptyOnData)
next
  case (PtyExit now a)
  then show ?thesis by (simp add: grow_ptyOnExit)
next
  case (DestroySession now sid)
  then show ?thesis by (simp add: grow_destroySession)
next
  case (DestroyUserSession now u)
  then show ?thesis
    by (simp add: destroyUserSession_def savedFlagsGrow_fold grow_destroySession)
next
  case (DestroyAll now)
  have "savedFlagsGrow st (fold (destroySession now) (map fst (sessions st)) st)"
    by (rule savedFlagsGrow_fold) (rule grow_destroySession)
  moreover have "\<And>s. savedFlagsGrow s (persistRuntimeState now s)"
    by (rule sameSavedFlags_imp_grow) (rule same_persistRuntimeState)
  ultimately show ?thesis using DestroyAll
    by (auto simp: destroyAll_def intro: savedFlagsGrow_trans)
next
  case (CleanupInactiveSessions now)
  have "\<And>ids. savedFlagsGrow st (fold (reapOne now) ids st)"
    by (rule savedFlagsGrow_fold) (rule grow_reapOne)
  then show ?thesis using CleanupInactiveSessions
    by (simp add: cleanupInactiveSessions_def split: jsnum.splits)
qed

lemma grow_run: "savedFlagsGrow st (run R evs st)"
  unfolding run_def by (rule savedFlagsGrow_fold) (rule grow_step)

lemma count_list_distinct: "distinct xs \<Longrightarrow> count_list xs a \<le> 1"
  by (induction xs) (auto simp: count_list_0_iff)

text \<open>
  Claim C2. Start from any registry whose trace of history writes is well formed, as it is
  after the constructor, and let any sequence of events happen: sessions created, input
  and output, timers, \<open>destroySession\<close> called any number of times on any session ids,
  process-exit callbacks, bulk destruction, sweeps of the reaper. Then no session object
  has more than one durable history write by \<open>_saveHistory\<close> in the trace, the trace is
  still well formed, so the same holds after any further events, and a session object
  whose \<open>_historySaved\<close> flag is set still exists with its flag set: the flag never goes
  back to false, so it changes from false to true at most once.
\<close>

theorem history_saved_at_most_once:
  assumes "savedLogOK st"
  shows "savedLogOK (run R evs st) \<and>
         count_list (savedLog (run R evs st)) a \<le> 1 \<and>
         (\<forall>s. heap st a = Some s \<and> historySaved s \<longrightarrow>
            (\<exists>s'. heap (run R evs st) a = Some s' \<and> historySaved s'))"
proof -
  have g: "savedLogOK (run R evs st) \<and>
           (\<forall>a s. heap st a = Some s \<longrightarrow>
              (\<exists>s'. heap (run R evs st) a = Some s' \<and> (historySaved s \<longrightarrow> historySaved s')))"
    using grow_run[of st R evs] assms unfolding savedFlagsGrow_def by blast
  then have "distinct (savedLog (run R evs st))" by (simp add: savedLogOK_def)
  then have "count_list (savedLog (run R evs st)) a \<le> 1" by (rule count_list_distinct)
  then show ?thesis using g by blast
qed

lemma savedLogOK_demoManager: "savedLogOK demoManager"
  by (simp add: savedLogOK_def demoManager_def newManager_no_snapshot)

lemma codexSession_fields:
  "sessions codexSession = [(''al-codex-2'', 0)]"
  "savedLog codexSession = []"
  by (simp_all add: run_defs)

lemma ptyOnExit_savedLog:
  "savedLog (ptyOnExit now a st) =
     (case heap st a of
        None \<Rightarrow> savedLog st
      | Some s \<Rightarrow> if historySaved s then savedLog st else savedLog st @ [a])"
  by (auto simp: ptyOnExit_def Let_def saveHistory_savedLog saveHistory_heap split: option.splits)

lemma savedLog_destroyedTwice: "savedLog destroyedTwice = [0]"
proof -
  let ?s = "newSession 2 ''al-codex-2'' ''al'' ''codex'' [] ''chat'' None"
  define st2 where "st2 = destroySession 5 ''al-codex-2'' codexSession"
  have look: "map_of (sessions codexSession) ''al-codex-2'' = Some 0" "heap codexSession 0 = Some ?s"
    by (simp_all add: codexSession_fields heap_codexSession)
  note d = destroySession_found[OF look, of 5, folded st2_def]
  have f2: "sessions st2 = []" "savedLog st2 = [0]"
    "heap st2 0 = Some (?s\<lparr>readyFallbackTimer := False, ptyKilled := True, historySaved := True\<rparr>)"
    using d(1-3) by (simp_all add: codexSession_fields newSession_def)
  have "getSession st2 ''al-codex-2'' = None" by (simp add: getSession_def f2)
  then have again: "destroySession 6 ''al-codex-2'' st2 = st2" by (simp add: destroySession_def)
  have "savedLog (ptyOnExit 7 0 st2) = [0]" by (simp add: ptyOnExit_savedLog f2)
  moreover have "destroyedTwice = ptyOnExit 7 0 (destroySession 6 ''al-codex-2'' st2)"
    by (simp add: destroyedTwice_def run_def st2_def codexSession_def)
  ultimately show ?thesis by (simp add: again)
qed

theorem history_saved_at_most_once_witness:
  "savedLogOK demoManager \<and>
   savedLog destroyedTwice = [0] \<and>
   count_list (savedLog destroyedTwice) 0 \<le> 1 \<and>
   savedLogOK destroyedTwice"
  using history_saved_at_most_once[OF savedLogOK_demoManager, of demoRules
      "[CreateSession 2 ''al'' ''codex'' [] ''chat'' None,
        DestroySession 5 ''al-codex-2'', DestroySession 6 ''al-codex-2'', PtyExit 7 0]" 0]
    savedLog_destroyedTwice savedLogOK_demoManager
  by (simp add: destroyedTwice_def)






section \<open>Compacting a history\<close>




lemma truthyStr_Some: "truthyStr x = Some v \<longleftrightarrow> x = Some v \<and> v \<noteq> []"
  by (auto simp: truthyStr_def split: option.splits)














section \<open>Recovery of the runtime snapshot\<close>














end
